theory Spec2Isabelle
  imports Main
begin

section \<open>Batch planning: \<open>Tracer.batch\<close>\<close>

text \<open>
  \<^verbatim>\<open>refactor/nnsight04/intervention/contexts/tracer.py\<close>, lines 114-135.

  The model's \<^verbatim>\<open>_prepare_input\<close> and \<^verbatim>\<open>_batch\<close> are methods of the traced model, not of
  the tracer, so they are parameters here: \<open>prepare_input\<close> maps one invocation's raw
  arguments to the prepared input and its length (the \<^verbatim>\<open>batch_size\<close>, a \<^verbatim>\<open>len(...)\<close> in every
  implementation of the repository, hence a \<open>nat\<close>), and \<open>combine\<close> merges a prepared input
  into the running batch (\<open>None\<close> before the first invocation, as in the source).

  The value bound to \<^verbatim>\<open>batched_input\<close> when the loop left it \<^verbatim>\<open>None\<close> is the literal
  \<^verbatim>\<open>(((0, -1),), dict())\<close>: a positional tuple holding the one pair \<open>(0, -1)\<close> and an empty
  keyword dictionary.
\<close>

datatype 'b batched_input =
    Combined 'b
  | Literal "(int \<times> int) list" "(string \<times> int) list"

fun batch_loop ::
  "('inv \<Rightarrow> 'inp \<times> nat) \<Rightarrow> ('b option \<Rightarrow> 'inp \<Rightarrow> 'b option) \<Rightarrow> 'inv list \<Rightarrow>
   (nat \<times> nat) list \<Rightarrow> nat \<Rightarrow> 'b option \<Rightarrow> (nat \<times> nat) list \<times> nat \<times> 'b option" where
  "batch_loop prepare_input combine [] batch_groups batch_start batched = (batch_groups, batch_start, batched)"
| "batch_loop prepare_input combine (invocation # rest) batch_groups batch_start batched =
     (case prepare_input invocation of (inp, batch_size) \<Rightarrow>
        batch_loop prepare_input combine rest
          (batch_groups @ [(batch_start, batch_size)])
          (batch_start + batch_size)
          (combine batched inp))"

definition batch ::
  "('inv \<Rightarrow> 'inp \<times> nat) \<Rightarrow> ('b option \<Rightarrow> 'inp \<Rightarrow> 'b option) \<Rightarrow> 'inv list \<Rightarrow>
   'b batched_input \<times> (nat \<times> nat) list" where
  "batch prepare_input combine invoker_inputs =
     (case batch_loop prepare_input combine invoker_inputs [] 0 None of
        (batch_groups, batch_start, batched) \<Rightarrow>
          ((case batched of None \<Rightarrow> Literal [(0, -1)] [] | Some b \<Rightarrow> Combined b), batch_groups))"

text \<open>The offsets the loop assigns, written as a function of the reported lengths.\<close>

fun group_plan :: "nat \<Rightarrow> nat list \<Rightarrow> (nat \<times> nat) list" where
  "group_plan start [] = []"
| "group_plan start (l # ls) = (start, l) # group_plan (start + l) ls"

text \<open>The index interval a group stands for.\<close>

definition span :: "nat \<times> nat \<Rightarrow> nat set" where
  "span g = {fst g ..< fst g + snd g}"

text \<open>Concrete collaborators used where a closed instance is evaluated.\<close>

definition prepare_list :: "nat list \<Rightarrow> nat list \<times> nat" where
  "prepare_list xs = (xs, length xs)"

definition combine_list :: "nat list option \<Rightarrow> nat list \<Rightarrow> nat list option" where
  "combine_list b xs = Some (case b of None \<Rightarrow> xs | Some ys \<Rightarrow> ys @ xs)"

section \<open>The remote backend: \<open>intervention/backends/remote.py\<close>\<close>

subsection \<open>Graphs, messages, errors\<close>

text \<open>
  The graph and its nodes are collaborators of the backend, used through a narrow
  interface: \<^verbatim>\<open>graph.nodes[i]\<close>, a node's \<^verbatim>\<open>target\<close>, \<^verbatim>\<open>index\<close>, \<^verbatim>\<open>meta_data['traceback']\<close>
  and cached value, and \<^verbatim>\<open>node.execute()\<close>. A node keeps exactly these fields here.
\<close>

datatype target = LocalContext | OtherTarget string

record 'v node =
  node_name :: string
  node_index :: nat
  node_target :: target
  node_cached :: "'v option"
  node_traceback :: "string option"

type_synonym 'v graph = "'v node list"

type_synonym bytes = string

type_synonym 'v result = "(string \<times> 'v) list"

text \<open>
  Every exception the modelled code can raise. \<open>TransportError\<close> stands for an exception
  raised inside the HTTP or socket library; \<open>ExecutionError\<close> for one raised by
  \<^verbatim>\<open>node.execute()\<close>; \<open>DecodeError\<close> for one raised by \<^verbatim>\<open>torch.load\<close> or \<^verbatim>\<open>ResultModel(**result)\<close>;
  \<open>PlainException\<close> for the \<^verbatim>\<open>Exception(str(response))\<close> of the legacy backend.
\<close>

datatype exn =
    KeyError string
  | IndexError
  | AttributeError
  | ValueError
  | UnboundLocalError
  | ConnectionError string
  | HTTPError string
  | TransportError string
  | DecodeError
  | ExecutionError string
  | NNsightError string nat
  | PlainException string

text \<open>
  Modelled from the spec: \<^verbatim>\<open>ResponseModel\<close> (\<^verbatim>\<open>schema/response.py\<close> is not among the
  sources). The spec gives five statuses and fixes the payload's shape by the status, so
  a message is a tagged union: the first field is the job id, \<open>Stream\<close> carries the pair
  \<^verbatim>\<open>(index, dependencies)\<close>, \<open>Completed\<close> carries the result or \<^verbatim>\<open>None\<close>, and \<open>Error\<close> (the
  status \<^verbatim>\<open>NNSIGHT_ERROR\<close> of the code) carries \<^verbatim>\<open>data['node_id']\<close> and \<^verbatim>\<open>data['message']\<close>.
\<close>

datatype 'v response =
    Queued string
  | Running string
  | Stream string int "'v result"
  | Completed string "'v result option"
  | Error string int string

fun response_id :: "'v response \<Rightarrow> string" where
  "response_id (Queued rid) = rid"
| "response_id (Running rid) = rid"
| "response_id (Stream rid idx deps) = rid"
| "response_id (Completed rid d) = rid"
| "response_id (Error rid nid msg) = rid"

subsection \<open>Effects\<close>

text \<open>
  What the backend does to the outside is recorded in order: logging a message, printing,
  the three HTTP requests, opening the socket, serializing a graph, writing values into the
  caller's graph, and running a node (with the graph the node ran on).
\<close>

datatype 'v event =
    Logged "'v response"
  | Printed string
  | TracebackLimit int
  | Connected
  | Serialized "'v graph"
  | Posted bytes "(string \<times> string) list"
  | Polled string
  | Downloaded string
  | Injected "'v result"
  | Executed nat "'v graph"

text \<open>
  \<open>config_job_id\<close> is \<^verbatim>\<open>CONFIG.API.JOB_ID\<close>, \<open>saved_job_id\<close> is what \<^verbatim>\<open>CONFIG.save()\<close> last
  wrote.
\<close>

record 'v world =
  config_job_id :: "string option"
  saved_job_id :: "string option"
  events :: "'v event list"

definition emit :: "'v event \<Rightarrow> 'v world \<Rightarrow> 'v world" where
  "emit e w = w\<lparr>events := events w @ [e]\<rparr>"

definition config_save :: "'v world \<Rightarrow> 'v world" where
  "config_save w = w\<lparr>saved_job_id := config_job_id w\<rparr>"

text \<open>The replies of the two request/response endpoints and of the result endpoint.\<close>

datatype 'v http_reply =
    Ok200 "'v response"
  | Refused nat string
  | Unreachable string

datatype http_stream =
    NoStream string
  | Opened "string \<Rightarrow> string option" "bytes list" bool

text \<open>
  The remote service and the library calls, as the backend sees them. \<open>inbox\<close> lists the
  messages the duplex channel delivers, in order; once it is exhausted \<^verbatim>\<open>sio.receive()\<close>
  blocks. \<open>connect\<close> is the session id of a successful connect. \<open>py_float\<close> says which
  strings \<^verbatim>\<open>float\<close> accepts, \<open>torch_load\<close> decodes a downloaded buffer, \<open>execute\<close> runs the
  node at a position of a graph and returns the graph it leaves, with the exception if it
  raised.
\<close>

record 'v remote =
  post_request :: "bytes \<Rightarrow> (string \<times> string) list \<Rightarrow> 'v http_reply"
  get_status :: "string \<Rightarrow> 'v http_reply"
  get_stream :: "string \<Rightarrow> http_stream"
  connect :: "string option"
  inbox :: "'v response list"
  py_float :: "string \<Rightarrow> bool"
  torch_load :: "bytes \<Rightarrow> 'v result option"
  execute :: "'v graph \<Rightarrow> nat \<Rightarrow> 'v graph \<times> exn option"
  encode_json :: "'v graph \<Rightarrow> bytes"
  encode_pt :: "'v graph \<Rightarrow> bytes"
  compress :: "bytes \<Rightarrow> bytes"

record backend =
  model_key :: string
  job_id :: "string option"
  zlib :: bool
  format :: string
  blocking :: bool

text \<open>\<^verbatim>\<open>job_id or CONFIG.API.JOB_ID\<close>: an empty string is false in Python.\<close>

definition py_or :: "string option \<Rightarrow> string option \<Rightarrow> string option" where
  "py_or a b = (case a of None \<Rightarrow> b | Some s \<Rightarrow> if s = [] then b else Some s)"

text \<open>\<^verbatim>\<open>RemoteBackend.__init__\<close>, for the fields the requests depend on.\<close>

definition init_backend ::
  "string \<Rightarrow> bool \<Rightarrow> string option \<Rightarrow> bool \<Rightarrow> string \<Rightarrow> 'v world \<Rightarrow> backend" where
  "init_backend key block jid cfg_zlib cfg_format w =
     \<lparr>model_key = key, job_id = py_or jid (config_job_id w), zlib = cfg_zlib,
      format = cfg_format, blocking = block\<rparr>"

text \<open>\<^verbatim>\<open>xs[i]\<close> on a Python list: a negative index counts from the end, out of range raises.\<close>

definition py_index :: "'a list \<Rightarrow> int \<Rightarrow> nat option" where
  "py_index xs i =
     (let n = int (length xs); j = (if i < 0 then n + i else i)
      in if 0 \<le> j \<and> j < n then Some (nat j) else None)"

text \<open>\<^verbatim>\<open>d[k] = v\<close> on a dictionary kept in insertion order.\<close>

fun dict_set :: "'k \<Rightarrow> 'x \<Rightarrow> ('k \<times> 'x) list \<Rightarrow> ('k \<times> 'x) list" where
  "dict_set k v [] = [(k, v)]"
| "dict_set k v ((k', v') # rest) =
     (if k' = k then (k, v) # rest else (k', v') # dict_set k v rest)"

subsection \<open>Result injection\<close>

text \<open>
  Modelled from the spec: \<^verbatim>\<open>ResultModel.inject\<close> (\<^verbatim>\<open>schema/result.py\<close> is not among the
  sources). Every entry overwrites the cached value of the node it names, nodes the
  payload does not name are left as they are, no node is created, and an unknown name
  fails; the entries before it have been written by then, as in the loop of
  \<^verbatim>\<open>remote_backend_handle_result_value\<close> in \<^verbatim>\<open>tracer.py\<close>.
\<close>

fun set_cached :: "string \<Rightarrow> 'v \<Rightarrow> 'v graph \<Rightarrow> 'v graph option" where
  "set_cached k v [] = None"
| "set_cached k v (n # ns) =
     (if node_name n = k then Some (n\<lparr>node_cached := Some v\<rparr> # ns)
      else map_option ((#) n) (set_cached k v ns))"

fun inject :: "'v graph \<Rightarrow> 'v result \<Rightarrow> 'v graph \<times> exn option" where
  "inject g [] = (g, None)"
| "inject g ((k, v) # rest) =
     (case set_cached k v g of
        None \<Rightarrow> (g, Some (KeyError k))
      | Some g' \<Rightarrow> inject g' rest)"

text \<open>Reading a node's value by name, as execution resolves a dependency.\<close>

fun lookup_cached :: "'v graph \<Rightarrow> string \<Rightarrow> 'v option" where
  "lookup_cached [] k = None"
| "lookup_cached (n # ns) k = (if node_name n = k then node_cached n else lookup_cached ns k)"

subsection \<open>\<^verbatim>\<open>get_result\<close>: the chunked download\<close>

text \<open>
  The loop over \<^verbatim>\<open>stream.iter_content(chunk_size=None)\<close>: each chunk advances the progress
  bar by its length and is appended to the buffer.
\<close>

fun write_chunks :: "bytes list \<Rightarrow> nat \<times> bytes \<Rightarrow> nat \<times> bytes" where
  "write_chunks [] st = st"
| "write_chunks (d # ds) (progress, result_bytes) =
     write_chunks ds (progress + length d, result_bytes @ d)"

text \<open>
  The \<^verbatim>\<open>with requests.get(..., stream=True)\<close> block of \<^verbatim>\<open>get_result\<close>: the buffer it leaves in
  \<^verbatim>\<open>result_bytes\<close>. The flag of \<open>Opened\<close> says that the iterator raised after its last
  chunk, which is how the library reports a connection that dropped.
\<close>

definition download :: "(string \<Rightarrow> bool) \<Rightarrow> http_stream \<Rightarrow> exn + bytes" where
  "download float_ok s =
     (case s of
        NoStream msg \<Rightarrow> Inl (TransportError msg)
      | Opened headers chunks dropped \<Rightarrow>
          (case headers ''Content-length'' of
             None \<Rightarrow> Inl (KeyError ''Content-length'')
           | Some total_size \<Rightarrow>
               if \<not> float_ok total_size then Inl ValueError
               else if dropped then Inl (TransportError ''connection dropped'')
               else Inr (snd (write_chunks chunks (0, [])))))"

definition get_result :: "'v remote \<Rightarrow> string \<Rightarrow> 'v world \<Rightarrow> 'v world \<times> (exn + 'v result)" where
  "get_result env rid w =
     (let w1 = emit (Downloaded rid) w in
      case download (py_float env) (get_stream env rid) of
        Inl e \<Rightarrow> (w1, Inl e)
      | Inr result_bytes \<Rightarrow>
          (case torch_load env result_bytes of
             None \<Rightarrow> (w1, Inl DecodeError)
           | Some r \<Rightarrow> (w1, Inr r)))"

subsection \<open>\<^verbatim>\<open>handle_response\<close>\<close>

text \<open>
  \<^verbatim>\<open>handle_response(response, graph=None)\<close>, lines 108-160. The result is the world after
  the call, the graph after the call, and either the exception raised or the value
  returned (\<open>None\<close> for Python's \<^verbatim>\<open>None\<close>). With \<^verbatim>\<open>graph\<close> left at \<^verbatim>\<open>None\<close> the attribute
  \<^verbatim>\<open>graph.nodes\<close> does not exist, and nothing is written or run before that is found out.
\<close>

definition handle_response ::
  "'v remote \<Rightarrow> 'v response \<Rightarrow> 'v graph option \<Rightarrow> 'v world \<Rightarrow>
   'v world \<times> 'v graph option \<times> (exn + 'v result option)" where
  "handle_response env response graph w =
     (let w1 = emit (Logged response) w in
      case response of
        Completed rid d \<Rightarrow>
          (case d of
             None \<Rightarrow>
               (case get_result env rid w1 of
                  (w2, Inl e) \<Rightarrow> (w2, graph, Inl e)
                | (w2, Inr r) \<Rightarrow> (w2, graph, Inr (Some r)))
           | Some r \<Rightarrow> (w1, graph, Inr (Some r)))
      | Stream rid idx dependencies \<Rightarrow>
          (case graph of
             None \<Rightarrow> (w1, None, Inl AttributeError)
           | Some g \<Rightarrow>
               (case inject g dependencies of
                  (g1, Some e) \<Rightarrow> (emit (Injected dependencies) w1, Some g1, Inl e)
                | (g1, None) \<Rightarrow>
                    (case py_index g1 idx of
                       None \<Rightarrow> (emit (Injected dependencies) w1, Some g1, Inl IndexError)
                     | Some i \<Rightarrow>
                         (case execute env g1 i of
                            (g2, Some e) \<Rightarrow>
                              (emit (Executed i g1) (emit (Injected dependencies) w1), Some g2, Inl e)
                          | (g2, None) \<Rightarrow>
                              (emit (Executed i g1) (emit (Injected dependencies) w1), Some g2,
                               Inr None)))))
      | Error rid node_id message \<Rightarrow>
          (case graph of
             None \<Rightarrow> (w1, None, Inl AttributeError)
           | Some g \<Rightarrow>
               (case py_index g node_id of
                  None \<Rightarrow> (w1, graph, Inl IndexError)
                | Some i \<Rightarrow>
                    (case node_traceback (g ! i) of
                       None \<Rightarrow> (w1, graph, Inl (KeyError ''traceback''))
                     | Some tb \<Rightarrow>
                         (emit (TracebackLimit 0) (emit (Printed (CHR 0x0A # tb)) w1), graph,
                          Inl (NNsightError message (node_index (g ! i)))))))
      | Queued rid \<Rightarrow> (w1, graph, Inr None)
      | Running rid \<Rightarrow> (w1, graph, Inr None))"

subsection \<open>The request/response channel\<close>

text \<open>\<^verbatim>\<open>serialize\<close>, lines 61-91. A format other than the two leaves \<^verbatim>\<open>data\<close> unbound.\<close>

definition serialize ::
  "backend \<Rightarrow> 'v remote \<Rightarrow> 'v graph \<Rightarrow> 'v world \<Rightarrow>
   'v world \<times> (exn + bytes \<times> (string \<times> string) list)" where
  "serialize self env graph w =
     (let w1 = emit (Serialized graph) w in
      if format self = ''json'' \<or> format self = ''pt'' then
        (let data = (if format self = ''json'' then encode_json env graph else encode_pt env graph);
             data = (if zlib self then compress env data else data);
             headers = [(''model_key'', model_key self), (''format'', format self),
                        (''zlib'', if zlib self then ''True'' else ''False'')]
         in (w1, Inr (data, headers)))
      else (w1, Inl UnboundLocalError))"

text \<open>
  \<^verbatim>\<open>submit_request\<close>, lines 163-193. The response is handled without a graph, and what
  \<^verbatim>\<open>handle_response\<close> returns is dropped: the response itself is returned.
\<close>

definition submit_request ::
  "'v remote \<Rightarrow> bytes \<Rightarrow> (string \<times> string) list \<Rightarrow> 'v world \<Rightarrow>
   'v world \<times> (exn + 'v response)" where
  "submit_request env data headers w =
     (let headers = dict_set ''Content-Type'' ''application/octet-stream'' headers;
          w1 = emit (Posted data headers) w in
      case post_request env data headers of
        Ok200 response \<Rightarrow>
          (case handle_response env response None w1 of
             (w2, _, Inl e) \<Rightarrow> (w2, Inl e)
           | (w2, _, Inr _) \<Rightarrow> (w2, Inr response))
      | Refused code detail \<Rightarrow> (w1, Inl (ConnectionError detail))
      | Unreachable msg \<Rightarrow> (w1, Inl (TransportError msg)))"

text \<open>
  \<^verbatim>\<open>get_response\<close>, lines 195-220. The job id is formatted into the URL, so \<^verbatim>\<open>None\<close> is polled
  as the text \<^verbatim>\<open>None\<close>. The response is handled without a graph.
\<close>

definition get_response ::
  "backend \<Rightarrow> 'v remote \<Rightarrow> 'v world \<Rightarrow> 'v world \<times> (exn + 'v result option)" where
  "get_response self env w =
     (let j = (case job_id self of None \<Rightarrow> ''None'' | Some j \<Rightarrow> j);
          w1 = emit (Polled j) w in
      case get_status env j of
        Ok200 response \<Rightarrow>
          (case handle_response env response None w1 of (w2, _, r) \<Rightarrow> (w2, r))
      | Refused code reason \<Rightarrow> (w1, Inl (HTTPError reason))
      | Unreachable msg \<Rightarrow> (w1, Inl (TransportError msg)))"

subsection \<open>\<^verbatim>\<open>preprocess\<close>\<close>

text \<open>
  Modelled from the spec: \<^verbatim>\<open>Graph.copy\<close> and \<^verbatim>\<open>LocalContext.prune\<close> (neither is among the
  sources). The copy is a graph of its own holding a copy of every node; pruning a node
  takes it out of the graph it belongs to.

  Two models follow. The first is on graph values, where a node is identified by its
  index and a value is its own copy; it is the one the requests below use. The second
  keeps graphs and nodes as objects in a store, so that what the copy shares with the
  original is explicit; it is the one the frame property of \<^verbatim>\<open>preprocess\<close> is proved on.
\<close>

definition graph_copy :: "'v graph \<Rightarrow> 'v graph" where
  "graph_copy g = g"

definition prune :: "'v node \<Rightarrow> 'v graph \<Rightarrow> 'v graph" where
  "prune n g = filter (\<lambda>m. node_index m \<noteq> node_index n) g"

text \<open>
  \<^verbatim>\<open>preprocess\<close>, lines 381-391: the loop visits the nodes the copy holds when it starts.
\<close>

fun prune_local :: "'v node list \<Rightarrow> 'v graph \<Rightarrow> 'v graph" where
  "prune_local [] new_graph = new_graph"
| "prune_local (n # rest) new_graph =
     prune_local rest (if node_target n = LocalContext then prune n new_graph else new_graph)"

definition preprocess :: "'v graph \<Rightarrow> 'v graph" where
  "preprocess graph = (let new_graph = graph_copy graph in prune_local new_graph new_graph)"

text \<open>
  The store: \<open>graph_nodes\<close> is \<^verbatim>\<open>Graph.nodes\<close> of the graph object at an address, as a
  list of node addresses; \<open>node_at\<close> is the node object at an address; \<open>node_graph\<close> is the
  graph a node belongs to; addresses from \<open>next_addr\<close> on are not allocated.
\<close>

record 'v store =
  graph_nodes :: "nat \<Rightarrow> nat list"
  node_at :: "nat \<Rightarrow> 'v node"
  node_graph :: "nat \<Rightarrow> nat"
  next_addr :: nat

definition read_graph :: "'v store \<Rightarrow> nat \<Rightarrow> 'v graph" where
  "read_graph s ga = map (node_at s) (graph_nodes s ga)"

text \<open>A graph of a store is allocated when its address and its nodes' addresses are.\<close>

definition allocated :: "'v store \<Rightarrow> nat \<Rightarrow> bool" where
  "allocated s ga = (ga < next_addr s \<and> (\<forall>a \<in> set (graph_nodes s ga). a < next_addr s))"

text \<open>
  Modelled from the spec: \<^verbatim>\<open>Graph.copy\<close> in the store. The new graph takes the first free
  address, its nodes the addresses after it, one per node of the original and in the same
  order, each holding the fields of the node it copies.
\<close>

definition graph_copy_in :: "'v store \<Rightarrow> nat \<Rightarrow> 'v store \<times> nat" where
  "graph_copy_in s ga =
     (let ns = graph_nodes s ga; new_graph = next_addr s in
      (s\<lparr>graph_nodes := (graph_nodes s)(new_graph := map (\<lambda>k. new_graph + 1 + k) [0 ..< length ns]),
         node_at := (\<lambda>a. if new_graph < a \<and> a \<le> new_graph + length ns
                          then node_at s (ns ! (a - new_graph - 1)) else node_at s a),
         node_graph := (\<lambda>a. if new_graph < a \<and> a \<le> new_graph + length ns
                             then new_graph else node_graph s a),
         next_addr := new_graph + 1 + length ns\<rparr>,
       new_graph))"

text \<open>
  Modelled from the spec: \<^verbatim>\<open>LocalContext.prune\<close> in the store. The node leaves the node
  list of the graph it belongs to; no node object changes.
\<close>

definition prune_in :: "'v store \<Rightarrow> nat \<Rightarrow> 'v store" where
  "prune_in s a =
     s\<lparr>graph_nodes := (graph_nodes s)(node_graph s a := removeAll a (graph_nodes s (node_graph s a)))\<rparr>"

text \<open>\<^verbatim>\<open>preprocess\<close>, lines 381-391, on the store.\<close>

fun prune_local_in :: "nat list \<Rightarrow> 'v store \<Rightarrow> 'v store" where
  "prune_local_in [] s = s"
| "prune_local_in (a # rest) s =
     prune_local_in rest (if node_target (node_at s a) = LocalContext then prune_in s a else s)"

definition preprocess_in :: "'v store \<Rightarrow> nat \<Rightarrow> 'v store \<times> nat" where
  "preprocess_in s graph =
     (case graph_copy_in s graph of
        (s1, new_graph) \<Rightarrow> (prune_local_in (graph_nodes s1 new_graph) s1, new_graph))"

subsection \<open>Blocking and non-blocking requests\<close>

text \<open>
  The \<^verbatim>\<open>while True\<close> loop of \<^verbatim>\<open>blocking_request\<close>, lines 296-312, over the messages still
  to come. The last component is \<open>None\<close> when the messages ran out with the loop still
  waiting in \<^verbatim>\<open>sio.receive()\<close>, and otherwise the exception raised or the result returned.
\<close>

fun receive_loop ::
  "'v remote \<Rightarrow> 'v response list \<Rightarrow> 'v graph \<Rightarrow> 'v world \<Rightarrow>
   'v world \<times> 'v graph \<times> (exn + 'v result) option" where
  "receive_loop env [] graph w = (w, graph, None)"
| "receive_loop env (response # rest) graph w =
     (case handle_response env response (Some graph) w of
        (w1, g1, Inl e) \<Rightarrow> (w1, case_option graph id g1, Some (Inl e))
      | (w1, g1, Inr (Some r)) \<Rightarrow> (w1, case_option graph id g1, Some (Inr r))
      | (w1, g1, Inr None) \<Rightarrow> receive_loop env rest (case_option graph id g1) w1)"

text \<open>\<^verbatim>\<open>blocking_request\<close>, lines 259-318.\<close>

definition blocking_request ::
  "backend \<Rightarrow> 'v remote \<Rightarrow> 'v graph \<Rightarrow> 'v world \<Rightarrow>
   'v world \<times> 'v graph \<times> (exn + 'v result) option" where
  "blocking_request self env graph w =
     (case connect env of
        None \<Rightarrow> (w, graph, Some (Inl (TransportError ''connect'')))
      | Some sid \<Rightarrow>
          (let w0 = emit Connected w;
               remote_graph = preprocess graph in
           case serialize self env remote_graph w0 of
             (w1, Inl e) \<Rightarrow> (w1, graph, Some (Inl e))
           | (w1, Inr (data, headers)) \<Rightarrow>
               (case submit_request env data (dict_set ''session_id'' sid headers) w1 of
                  (w2, Inl e) \<Rightarrow> (w2, graph, Some (Inl e))
                | (w2, Inr _) \<Rightarrow> receive_loop env (inbox env) graph w2)))"

text \<open>\<^verbatim>\<open>non_blocking_request\<close>, lines 335-379.\<close>

definition non_blocking_request ::
  "backend \<Rightarrow> 'v remote \<Rightarrow> 'v graph \<Rightarrow> 'v world \<Rightarrow>
   'v world \<times> (exn + 'v result option)" where
  "non_blocking_request self env graph w =
     (case job_id self of
        None \<Rightarrow>
          (case serialize self env graph w of
             (w1, Inl e) \<Rightarrow> (w1, Inl e)
           | (w1, Inr (data, headers)) \<Rightarrow>
               (case submit_request env data headers w1 of
                  (w2, Inl e) \<Rightarrow> (w2, Inl e)
                | (w2, Inr response) \<Rightarrow>
                    (config_save (w2\<lparr>config_job_id := Some (response_id response)\<rparr>), Inr None)))
      | Some j \<Rightarrow>
          (case get_response self env w of
             (w1, Inr (Some r)) \<Rightarrow> (config_save (w1\<lparr>config_job_id := None\<rparr>), Inr (Some r))
           | (w1, Inr None) \<Rightarrow> (w1, Inr None)
           | (w1, Inl e) \<Rightarrow> (config_save (w1\<lparr>config_job_id := None\<rparr>), Inl e)))"



subsection \<open>The legacy backend: \<open>contexts/backends/RemoteBackend.py\<close>\<close>

text \<open>
  What the legacy handler calls on the object it runs and on the streaming protocol:
  \<open>show_response\<close> is \<^verbatim>\<open>str(response)\<close>; \<open>execute_callback\<close> stands for
  \<^verbatim>\<open>remote_backend_get_stream_node\<close> followed by \<^verbatim>\<open>StreamingProtocol.execute_callback\<close>, on the
  object's graph.
\<close>

record 'v legacy_hooks =
  show_response :: "'v response \<Rightarrow> string"
  execute_callback :: "'v graph \<Rightarrow> int \<Rightarrow> 'v result \<Rightarrow> 'v graph \<times> exn option"

text \<open>
  \<^verbatim>\<open>handle_response\<close> of the legacy backend, lines 133-213. The \<^verbatim>\<open>COMPLETED\<close> branch never
  reads \<^verbatim>\<open>response.data\<close>: it holds the same download block as \<^verbatim>\<open>get_result\<close>, keyed by
  \<^verbatim>\<open>response.id\<close>, decodes the buffer, and hands the value to
  \<^verbatim>\<open>remote_backend_handle_result_value\<close>, the loop of \<^verbatim>\<open>tracer.py\<close> lines 199-203 that writes
  each value into the node of that name. The graph is the one of the object the backend
  runs. The handler returns the response.
\<close>

definition legacy_handle_response ::
  "'v legacy_hooks \<Rightarrow> 'v remote \<Rightarrow> 'v response \<Rightarrow> 'v graph \<Rightarrow> 'v world \<Rightarrow>
   'v world \<times> 'v graph \<times> (exn + 'v response)" where
  "legacy_handle_response hooks env response graph w =
     (let w1 = emit (Logged response) w in
      case response of
        Completed rid d \<Rightarrow>
          (case get_result env rid w1 of
             (w2, Inl e) \<Rightarrow> (w2, graph, Inl e)
           | (w2, Inr r) \<Rightarrow>
               (case inject graph r of
                  (g1, Some e) \<Rightarrow> (emit (Injected r) w2, g1, Inl e)
                | (g1, None) \<Rightarrow> (emit (Injected r) w2, g1, Inr response)))
      | Stream rid idx v \<Rightarrow>
          (case execute_callback hooks graph idx v of
             (g1, Some e) \<Rightarrow> (w1, g1, Inl e)
           | (g1, None) \<Rightarrow> (w1, g1, Inr response))
      | Error rid node_id message \<Rightarrow> (w1, graph, Inl (PlainException (show_response hooks response)))
      | Queued rid \<Rightarrow> (w1, graph, Inr response)
      | Running rid \<Rightarrow> (w1, graph, Inr response))"

subsection \<open>Observations on the record of effects\<close>

text \<open>The job ids of the result downloads, in order.\<close>

fun downloads :: "'v event list \<Rightarrow> string list" where
  "downloads [] = []"
| "downloads (Downloaded rid # es) = rid # downloads es"
| "downloads (e # es) = downloads es"

text \<open>The events of a submission: a graph serialized, a request posted.\<close>

fun is_submission :: "'v event \<Rightarrow> bool" where
  "is_submission (Serialized g) = True"
| "is_submission (Posted data headers) = True"
| "is_submission e = False"

text \<open>Whether a message reports the status \<^verbatim>\<open>COMPLETED\<close>.\<close>

fun is_completed :: "'v response \<Rightarrow> bool" where
  "is_completed (Completed rid d) = True"
| "is_completed r = False"

fun reply_completed :: "'v http_reply \<Rightarrow> bool" where
  "reply_completed (Ok200 r) = is_completed r"
| "reply_completed r = False"

text \<open>The two statuses that carry no payload.\<close>

fun is_informational :: "'v response \<Rightarrow> bool" where
  "is_informational (Queued rid) = True"
| "is_informational (Running rid) = True"
| "is_informational r = False"

text \<open>
  Whether the three steps of the \<^verbatim>\<open>STREAM\<close> branch all succeed on a graph: the injection,
  the lookup \<^verbatim>\<open>graph.nodes[index]\<close>, and the node's execution.
\<close>

definition stream_ok :: "'v remote \<Rightarrow> 'v graph \<Rightarrow> int \<Rightarrow> 'v result \<Rightarrow> bool" where
  "stream_ok env g idx deps =
     (snd (inject g deps) = None \<and>
      (case py_index g idx of
         None \<Rightarrow> False
       | Some i \<Rightarrow> snd (execute env (fst (inject g deps)) i) = None))"

subsection \<open>A concrete service, graph and configuration\<close>

text \<open>
  A two-node graph, a configuration holding the job id \<open>job-42\<close>, and a service that
  queues every submission, reports a polled job as running, and serves an empty result
  with a declared length of 0. The decoder refuses the empty buffer, as \<^verbatim>\<open>torch.load\<close> does
  (it raises \<^verbatim>\<open>EOFError\<close>), and decodes any other buffer to the value 10 for node \<open>b\<close>. They
  are the inputs of the closed instances below.
\<close>

definition demo_graph :: "int graph" where
  "demo_graph =
     [\<lparr>node_name = ''a'', node_index = 0, node_target = OtherTarget ''fn'',
       node_cached = None, node_traceback = Some ''line 1''\<rparr>,
      \<lparr>node_name = ''b'', node_index = 1, node_target = LocalContext,
       node_cached = None, node_traceback = Some ''line 2''\<rparr>]"

definition demo_world :: "int world" where
  "demo_world = \<lparr>config_job_id = Some ''job-42'', saved_job_id = Some ''job-42'', events = []\<rparr>"

definition demo_remote :: "int remote" where
  "demo_remote =
     \<lparr>post_request = (\<lambda>data headers. Ok200 (Queued ''job-42'')),
      get_status = (\<lambda>j. Ok200 (Running j)),
      get_stream = (\<lambda>rid. Opened [''Content-length'' \<mapsto> ''0''] [] False),
      connect = Some ''sid-1'',
      inbox = [],
      py_float = (\<lambda>s. s = ''0'' \<or> s = ''3''),
      torch_load = (\<lambda>b. if b = [] then None else Some [(''b'', 10)]),
      execute = (\<lambda>g i. (g, None)),
      encode_json = (\<lambda>g. concat (map node_name g)),
      encode_pt = (\<lambda>g. concat (map node_name g)),
      compress = (\<lambda>b. b)\<rparr>"

text \<open>
  Variants of the service: one whose result endpoint sends three bytes in two chunks under
  a declared length of 3, one whose node execution caches the value 0 in the node it runs;
  a configuration with no job id; and the hooks of the legacy handler.
\<close>

definition demo_remote_result :: "int remote" where
  "demo_remote_result =
     demo_remote\<lparr>get_stream := (\<lambda>rid. Opened [''Content-length'' \<mapsto> ''3''] [''ab'', ''c''] False)\<rparr>"



definition demo_hooks :: "int legacy_hooks" where
  "demo_hooks = \<lparr>show_response = response_id, execute_callback = (\<lambda>g i v. (g, None))\<rparr>"

text \<open>A store holding \<open>demo_graph\<close> as the graph at address 0, its nodes at 1 and 2.\<close>

definition demo_store :: "int store" where
  "demo_store =
     \<lparr>graph_nodes = (\<lambda>g. if g = 0 then [1, 2] else []),
      node_at = (\<lambda>a. demo_graph ! (a - 1)),
      node_graph = (\<lambda>a. 0),
      next_addr = 3\<rparr>"

definition demo_backend :: backend where
  "demo_backend =
     \<lparr>model_key = ''model'', job_id = Some ''job-42'', zlib = False, format = ''json'',
      blocking = False\<rparr>"

section \<open>Properties of the batch planner\<close>

lemma batch_loop_groups:
  "fst (batch_loop prepare_input combine invs gs start b) =
     gs @ group_plan start (map (\<lambda>i. snd (prepare_input i)) invs)"
  by (induction invs arbitrary: gs start b) (auto split: prod.splits)

lemma batch_snd:
  "snd (batch prepare_input combine invs) = group_plan 0 (map (\<lambda>i. snd (prepare_input i)) invs)"
proof -
  have "snd (batch prepare_input combine invs) = fst (batch_loop prepare_input combine invs [] 0 None)"
    by (simp add: batch_def split: prod.splits)
  then show ?thesis
    by (simp add: batch_loop_groups)
qed

lemma length_group_plan: "length (group_plan start ls) = length ls"
  by (induction ls arbitrary: start) auto

lemma group_plan_nth:
  "i < length ls \<Longrightarrow> group_plan start ls ! i = (start + sum_list (take i ls), ls ! i)"
proof (induction ls arbitrary: start i)
  case Nil
  then show ?case by simp
next
  case (Cons l ls)
  show ?case
  proof (cases i)
    case 0
    then show ?thesis by simp
  next
    case (Suc k)
    with Cons.prems have "k < length ls" by simp
    from Cons.IH [OF this, of "start + l"] Suc show ?thesis by (simp add: add.assoc)
  qed
qed

lemma group_plan_union:
  "(\<Union>g \<in> set (group_plan start ls). span g) = {start ..< start + sum_list ls}"
proof (induction ls arbitrary: start)
  case Nil
  then show ?case by simp
next
  case (Cons l ls)
  have "(\<Union>g \<in> set (group_plan start (l # ls)). span g) =
          span (start, l) \<union> (\<Union>g \<in> set (group_plan (start + l) ls). span g)"
    by simp
  also have "\<dots> = {start ..< start + l} \<union> {start + l ..< start + l + sum_list ls}"
    unfolding Cons.IH by (simp add: span_def)
  also have "\<dots> = {start ..< start + sum_list (l # ls)}"
    by auto
  finally show ?case .
qed

lemma sum_list_take_mono:
  fixes ls :: "nat list"
  assumes "i \<le> j"
  shows "sum_list (take i ls) \<le> sum_list (take j ls)"
proof -
  have "take j ls = take i ls @ take (j - i) (drop i ls)"
    using assms by (metis le_add_diff_inverse take_add)
  then show ?thesis by (metis le_add1 sum_list_append)
qed

lemma sum_list_take_Suc:
  fixes ls :: "nat list"
  assumes "i < length ls"
  shows "sum_list (take (Suc i) ls) = sum_list (take i ls) + ls ! i"
  using assms by (simp add: take_Suc_conv_app_nth)

lemma group_plan_disjoint:
  assumes "i < j" and "j < length ls"
  shows "span (group_plan start ls ! i) \<inter> span (group_plan start ls ! j) = {}"
proof -
  from assms have i: "i < length ls" by simp
  have "sum_list (take i ls) + ls ! i = sum_list (take (Suc i) ls)"
    using i by (simp add: sum_list_take_Suc)
  also have "\<dots> \<le> sum_list (take j ls)"
    using assms(1) by (intro sum_list_take_mono) simp
  finally have "start + sum_list (take i ls) + ls ! i \<le> start + sum_list (take j ls)"
    by simp
  then show ?thesis
    using i assms(2) by (auto simp: span_def group_plan_nth)
qed

text \<open>
  C1. For invocations whose prepare step reports the lengths \<open>L\<^sub>1 \<dots> L\<^sub>n\<close>, the planner
  returns exactly \<open>n\<close> groups in submission order, the \<open>i\<close>-th being
  \<open>(L\<^sub>1 + \<dots> + L\<^sub>i\<^sub>-\<^sub>1, L\<^sub>i)\<close>; each group starts where the previous one ends, no two groups
  overlap, and together they cover exactly \<open>[0, \<Sum>L\<^sub>i)\<close>. An invocation of length 0 keeps
  its own entry, since the \<open>i\<close>-th entry exists for every \<open>i < n\<close> whatever its length.
\<close>

theorem batch_groups_prefix_sums:
  fixes prepare_input :: "'inv \<Rightarrow> 'inp \<times> nat"
    and combine :: "'b option \<Rightarrow> 'inp \<Rightarrow> 'b option"
  shows
  "length (snd (batch prepare_input combine invs)) = length invs \<and>
   (\<forall>i < length invs.
      snd (batch prepare_input combine invs) ! i =
        (sum_list (take i (map (\<lambda>v. snd (prepare_input v)) invs)), snd (prepare_input (invs ! i)))) \<and>
   (\<forall>i. Suc i < length invs \<longrightarrow>
      fst (snd (batch prepare_input combine invs) ! Suc i) =
        fst (snd (batch prepare_input combine invs) ! i) + snd (snd (batch prepare_input combine invs) ! i)) \<and>
   (\<forall>i j. i < j \<and> j < length invs \<longrightarrow>
      span (snd (batch prepare_input combine invs) ! i) \<inter>
      span (snd (batch prepare_input combine invs) ! j) = {}) \<and>
   (\<Union>g \<in> set (snd (batch prepare_input combine invs)). span g) =
      {0 ..< sum_list (map (\<lambda>v. snd (prepare_input v)) invs)}"
proof -
  let ?ls = "map (\<lambda>v. snd (prepare_input v)) invs"
  have g: "snd (batch prepare_input combine invs) = group_plan 0 ?ls"
    by (rule batch_snd)
  have len: "length (group_plan 0 ?ls) = length invs"
    by (simp add: length_group_plan)
  have nth: "group_plan 0 ?ls ! i = (sum_list (take i ?ls), snd (prepare_input (invs ! i)))"
    if "i < length invs" for i
    using that group_plan_nth [of i ?ls 0] by simp
  have contiguous:
    "fst (group_plan 0 ?ls ! Suc i) = fst (group_plan 0 ?ls ! i) + snd (group_plan 0 ?ls ! i)"
    if "Suc i < length invs" for i
  proof -
    from that have i: "i < length ?ls" and si: "Suc i < length ?ls" by simp_all
    show ?thesis
      using group_plan_nth [OF i, of 0] group_plan_nth [OF si, of 0] sum_list_take_Suc [OF i]
      by simp
  qed
  have disjoint: "span (group_plan 0 ?ls ! i) \<inter> span (group_plan 0 ?ls ! j) = {}"
    if "i < j \<and> j < length invs" for i j
    using that group_plan_disjoint [of i j ?ls 0] by simp
  have cover: "(\<Union>g \<in> set (group_plan 0 ?ls). span g) = {0 ..< sum_list ?ls}"
    using group_plan_union [of 0 ?ls] by simp
  show ?thesis
    unfolding g using len nth contiguous disjoint cover by blast
qed

theorem batch_groups_prefix_sums_witness:
  "snd (batch prepare_list combine_list [[1, 2], [], [3]]) = [(0, 2), (2, 0), (2, 1)] \<and>
   length (snd (batch prepare_list combine_list [[1, 2], [], [3]])) = 3 \<and>
   snd (batch prepare_list combine_list [[1, 2], [], [3]]) ! 1 = (2, 0) \<and>
   (\<Union>g \<in> set (snd (batch prepare_list combine_list [[1, 2], [], [3]])). span g) = {0 ..< 3}"
proof -
  have eval: "snd (batch prepare_list combine_list [[1, 2], [], [3]]) = [(0, 2), (2, 0), (2, 1)]"
    by (simp add: batch_def prepare_list_def combine_list_def)
  note plan = batch_groups_prefix_sums [of prepare_list combine_list "[[1, 2], [], [3]]"]
  have len: "length (snd (batch prepare_list combine_list [[1, 2], [], [3]])) = 3"
    using plan [THEN conjunct1] by simp
  have cover:
    "(\<Union>g \<in> set (snd (batch prepare_list combine_list [[1, 2], [], [3]])). span g) = {0 ..< 3}"
    using plan [THEN conjunct2, THEN conjunct2, THEN conjunct2, THEN conjunct2]
    by (simp add: prepare_list_def numeral_3_eq_3)
  show ?thesis
    using eval len cover by simp
qed

text \<open>
  C9, as the code has it. With no invocation the loop body never runs: the group list is
  empty and the merged input is the literal \<^verbatim>\<open>(((0, -1),), dict())\<close>. The pair \<open>(0, -1)\<close>
  stands in the merged input, not in the group list, and its second component is \<open>-1\<close>.
\<close>

theorem batch_no_invocations:
  "batch prepare_input combine [] = (Literal [(0, -1)] [], [])"
  by (simp add: batch_def)

text \<open>
  C9, as the claim words it, fails: the plan for zero invocations has no group at all
  (so not one group), and the only pair the result holds has the component \<open>-1\<close>, which is
  neither 0 nor a length.
\<close>

theorem batch_no_invocations_counterexample:
  "length (snd (batch prepare_list combine_list [])) \<noteq> 1 \<and>
   fst (batch prepare_list combine_list []) = Literal [(0, -1)] [] \<and>
   (-1 :: int) < 0"
  by (simp add: batch_def)

section \<open>Properties of the remote backend\<close>

subsection \<open>The chunked download\<close>

text \<open>The progress count and the buffer after the chunks have been written.\<close>

lemma write_chunks_concat:
  "write_chunks cs (n, buf) = (n + sum_list (map length cs), buf @ concat cs)"
  by (induction cs arbitrary: n buf) auto

lemma download_no_header:
  "headers ''Content-length'' = None \<Longrightarrow>
   download float_ok (Opened headers chunks dropped) = Inl (KeyError ''Content-length'')"
  by (simp add: download_def)

lemma download_dropped: "isl (download float_ok (Opened headers chunks True))"
  by (simp add: download_def split: option.splits)

lemma download_ok:
  "headers ''Content-length'' = Some declared \<Longrightarrow> float_ok declared \<Longrightarrow>
   download float_ok (Opened headers chunks False) = Inr (concat chunks)"
  by (simp add: download_def write_chunks_concat)

lemma get_result_snd:
  "snd (get_result env rid w) =
     (case download (py_float env) (get_stream env rid) of
        Inl e \<Rightarrow> Inl e
      | Inr buf \<Rightarrow> (case torch_load env buf of None \<Rightarrow> Inl DecodeError | Some r \<Rightarrow> Inr r))"
  by (simp add: get_result_def Let_def split: sum.splits option.splits)

lemma get_result_fst: "fst (get_result env rid w) = emit (Downloaded rid) w"
  by (simp add: get_result_def Let_def split: sum.splits option.splits)

lemma get_result_eq:
  "get_result env rid w =
     (emit (Downloaded rid) w,
      case download (py_float env) (get_stream env rid) of
        Inl e \<Rightarrow> Inl e
      | Inr buf \<Rightarrow> (case torch_load env buf of None \<Rightarrow> Inl DecodeError | Some r \<Rightarrow> Inr r))"
  by (simp add: get_result_def Let_def split: sum.splits option.splits)

text \<open>
  C6, as the code has it. \<^verbatim>\<open>get_result\<close> fails when the request itself fails, when the
  \<^verbatim>\<open>Content-length\<close> header is absent or is not a number, and when the library raises while
  the stream is read. Otherwise the chunks are appended in arrival order to one buffer, the
  progress count ends at the number of bytes received, and what is returned is the result
  decoded from that buffer, or the decoder's failure; the declared size plays no part in
  it. With no chunk the buffer is empty and the call ends as the decoder does on the empty
  buffer.
\<close>

theorem get_result_decodes_download:
  "(get_stream env rid = NoStream msg \<longrightarrow>
      get_result env rid w = (emit (Downloaded rid) w, Inl (TransportError msg))) \<and>
   (get_stream env rid = Opened headers chunks dropped \<and> headers ''Content-length'' = None \<longrightarrow>
      get_result env rid w = (emit (Downloaded rid) w, Inl (KeyError ''Content-length''))) \<and>
   (get_stream env rid = Opened headers chunks dropped \<and>
    headers ''Content-length'' = Some declared \<and> \<not> py_float env declared \<longrightarrow>
      get_result env rid w = (emit (Downloaded rid) w, Inl ValueError)) \<and>
   (get_stream env rid = Opened headers chunks True \<and>
    headers ''Content-length'' = Some declared \<and> py_float env declared \<longrightarrow>
      get_result env rid w = (emit (Downloaded rid) w, Inl (TransportError ''connection dropped''))) \<and>
   (get_stream env rid = Opened headers chunks False \<and>
    headers ''Content-length'' = Some declared \<and> py_float env declared \<longrightarrow>
      write_chunks chunks (0, []) = (length (concat chunks), concat chunks) \<and>
      get_result env rid w =
        (emit (Downloaded rid) w,
         case torch_load env (concat chunks) of None \<Rightarrow> Inl DecodeError | Some r \<Rightarrow> Inr r))"
proof -
  have count: "write_chunks chunks (0, []) = (length (concat chunks), concat chunks)"
    by (simp add: write_chunks_concat length_concat)
  have whole: "get_result env rid w =
        (emit (Downloaded rid) w,
         case torch_load env (concat chunks) of None \<Rightarrow> Inl DecodeError | Some r \<Rightarrow> Inr r)"
    if "get_stream env rid = Opened headers chunks False"
       "headers ''Content-length'' = Some declared" "py_float env declared"
    using that by (simp add: get_result_eq download_ok)
  have others:
    "get_stream env rid = NoStream msg \<longrightarrow>
      get_result env rid w = (emit (Downloaded rid) w, Inl (TransportError msg))"
    "get_stream env rid = Opened headers chunks dropped \<and> headers ''Content-length'' = None \<longrightarrow>
      get_result env rid w = (emit (Downloaded rid) w, Inl (KeyError ''Content-length''))"
    "get_stream env rid = Opened headers chunks dropped \<and>
     headers ''Content-length'' = Some declared \<and> \<not> py_float env declared \<longrightarrow>
      get_result env rid w = (emit (Downloaded rid) w, Inl ValueError)"
    "get_stream env rid = Opened headers chunks True \<and>
     headers ''Content-length'' = Some declared \<and> py_float env declared \<longrightarrow>
      get_result env rid w = (emit (Downloaded rid) w, Inl (TransportError ''connection dropped''))"
    by (simp_all add: get_result_eq download_def)
  from count whole others show ?thesis by blast
qed

theorem get_result_decodes_download_witness:
  "snd (get_result (demo_remote\<lparr>get_stream := \<lambda>rid. Opened Map.empty [''ab''] False\<rparr>) ''job-42'' demo_world)
     = Inl (KeyError ''Content-length'') \<and>
   snd (get_result
     (demo_remote\<lparr>get_stream := \<lambda>rid. Opened [''Content-length'' \<mapsto> ''3''] [''ab''] True\<rparr>)
     ''job-42'' demo_world) = Inl (TransportError ''connection dropped'') \<and>
   write_chunks [''ab'', ''c''] (0, []) = (3, ''abc'') \<and>
   snd (get_result demo_remote_result ''job-42'' demo_world) = Inr [(''b'', 10)]"
proof -
  let ?absent = "demo_remote\<lparr>get_stream := \<lambda>rid. Opened Map.empty [''ab''] False\<rparr>"
  let ?drop = "demo_remote\<lparr>get_stream := \<lambda>rid. Opened [''Content-length'' \<mapsto> ''3''] [''ab''] True\<rparr>"
  have a: "snd (get_result ?absent ''job-42'' demo_world) = Inl (KeyError ''Content-length'')"
    using get_result_decodes_download
      [where env = ?absent and rid = "''job-42''" and headers = Map.empty and chunks = "[''ab'']"
         and dropped = False and w = demo_world]
    by simp
  have d: "snd (get_result ?drop ''job-42'' demo_world) = Inl (TransportError ''connection dropped'')"
    using get_result_decodes_download
      [where env = ?drop and rid = "''job-42''" and headers = "[''Content-length'' \<mapsto> ''3'']"
         and chunks = "[''ab'']" and declared = "''3''" and w = demo_world]
    by (simp add: demo_remote_def)
  have st: "get_stream demo_remote_result ''job-42'' =
      Opened [''Content-length'' \<mapsto> ''3''] [''ab'', ''c''] False"
    and fl: "py_float demo_remote_result ''3''"
    and dec: "torch_load demo_remote_result ''abc'' = Some [(''b'', 10)]"
    by (simp_all add: demo_remote_result_def demo_remote_def)
  have r: "write_chunks [''ab'', ''c''] (0, []) = (3, ''abc'') \<and>
      snd (get_result demo_remote_result ''job-42'' demo_world) = Inr [(''b'', 10)]"
    using get_result_decodes_download
      [where env = demo_remote_result and rid = "''job-42''"
         and headers = "[''Content-length'' \<mapsto> ''3'']" and chunks = "[''ab'', ''c'']"
         and declared = "''3''" and w = demo_world] st fl
    by (simp add: dec)
  from a d r show ?thesis by blast
qed

text \<open>
  C6, as the claim words it, fails twice. At a declared length of 0 with an empty stream
  \<^verbatim>\<open>get_result\<close> returns no buffer: it hands the empty buffer to the decoder and raises what
  the decoder raises. And a stream that ends after two of three declared bytes, with no
  exception from the library, does not make the call fail: the two bytes are decoded and
  the result returned.
\<close>

theorem get_result_empty_stream_counterexample:
  "snd (get_result demo_remote ''job-42'' demo_world) = Inl DecodeError \<and>
   snd (get_result
     (demo_remote\<lparr>get_stream := \<lambda>rid. Opened [''Content-length'' \<mapsto> ''3''] [''ab''] False\<rparr>)
     ''job-42'' demo_world) = Inr [(''b'', 10)]"
  by (simp add: get_result_def download_def Let_def demo_remote_def)

subsection \<open>Handling one message\<close>

lemma downloads_append: "downloads (xs @ ys) = downloads xs @ downloads ys"
  by (induction xs rule: downloads.induct) auto

lemma handle_informational:
  "handle_response env (Queued rid) graph w = (emit (Logged (Queued rid)) w, graph, Inr None)"
  "handle_response env (Running rid) graph w = (emit (Logged (Running rid)) w, graph, Inr None)"
  by (simp_all add: handle_response_def)

lemma handle_completed_inline:
  "handle_response env (Completed rid (Some r)) graph w =
     (emit (Logged (Completed rid (Some r))) w, graph, Inr (Some r))"
  by (simp add: handle_response_def)

lemma handle_completed_null:
  "handle_response env (Completed rid None) graph w =
     (emit (Downloaded rid) (emit (Logged (Completed rid None)) w), graph,
      case snd (get_result env rid (emit (Logged (Completed rid None)) w)) of
        Inl e \<Rightarrow> Inl e | Inr r \<Rightarrow> Inr (Some r))"
  by (simp add: handle_response_def get_result_def Let_def split: sum.splits option.splits)

lemma handle_without_graph:
  "handle_response env (Stream rid idx deps) None w =
     (emit (Logged (Stream rid idx deps)) w, None, Inl AttributeError)"
  "handle_response env (Error rid nid msg) None w =
     (emit (Logged (Error rid nid msg)) w, None, Inl AttributeError)"
  by (simp_all add: handle_response_def)

lemma handle_error_with_graph:
  assumes "py_index g nid = Some i" and "node_traceback (g ! i) = Some tb"
  shows "handle_response env (Error rid nid msg) (Some g) w =
     (emit (TracebackLimit 0) (emit (Printed (CHR 0x0A # tb)) (emit (Logged (Error rid nid msg)) w)),
      Some g, Inl (NNsightError msg (node_index (g ! i))))"
  using assms by (simp add: handle_response_def)

lemma handle_error_raises: "isl (snd (snd (handle_response env (Error rid nid msg) graph w)))"
  by (simp add: handle_response_def Let_def split: option.splits)

lemma handle_response_config:
  "config_job_id (fst (handle_response env m graph w)) = config_job_id w \<and>
   saved_job_id (fst (handle_response env m graph w)) = saved_job_id w"
  by (cases m)
    (auto simp: handle_response_def emit_def get_result_def Let_def
          split: option.splits sum.splits prod.splits)

lemma handle_response_result_completed:
  "snd (snd (handle_response env m graph w)) = Inr (Some r) \<Longrightarrow> is_completed m"
  by (cases m) (auto simp: handle_response_def Let_def split: option.splits sum.splits prod.splits)

lemma handle_response_completed_result:
  "is_completed m \<Longrightarrow> snd (snd (handle_response env m graph w)) \<noteq> Inr None"
  by (cases m) (auto simp: handle_response_def Let_def split: option.splits sum.splits prod.splits)

lemma handle_completed_null_stream:
  "handle_response env (Completed rid None) graph w =
     (emit (Downloaded rid) (emit (Logged (Completed rid None)) w), graph,
      case download (py_float env) (get_stream env rid) of
        Inl e \<Rightarrow> Inl e
      | Inr buf \<Rightarrow> (case torch_load env buf of None \<Rightarrow> Inl DecodeError | Some r \<Rightarrow> Inr (Some r)))"
  by (simp add: handle_response_def get_result_eq split: sum.splits option.splits)

lemma legacy_handle_completed:
  "legacy_handle_response hooks env (Completed rid d) g w =
     (case download (py_float env) (get_stream env rid) of
        Inl e \<Rightarrow> (emit (Downloaded rid) (emit (Logged (Completed rid d)) w), g, Inl e)
      | Inr buf \<Rightarrow>
          (case torch_load env buf of
             None \<Rightarrow> (emit (Downloaded rid) (emit (Logged (Completed rid d)) w), g, Inl DecodeError)
           | Some r \<Rightarrow>
               (emit (Injected r) (emit (Downloaded rid) (emit (Logged (Completed rid d)) w)),
                fst (inject g r),
                case snd (inject g r) of Some e \<Rightarrow> Inl e | None \<Rightarrow> Inr (Completed rid d))))"
  by (cases "inject g (the (torch_load env (projr (download (py_float env) (get_stream env rid)))))")
     (auto simp: legacy_handle_response_def get_result_eq split: sum.splits option.splits)

lemma legacy_completed_downloads:
  "downloads (events (fst (legacy_handle_response hooks env (Completed rid d) g w))) =
     downloads (events w) @ [rid]"
  by (simp add: legacy_handle_completed emit_def downloads_append split: sum.splits option.splits)

text \<open>
  C3, as the code has it. In \<^verbatim>\<open>intervention/backends/remote.py\<close> a \<open>Completed\<close> message with
  inline data returns that data and downloads nothing; with null data the handler makes one
  download, opens the result stream of the message's job id, and returns what is decoded
  from that stream (or raises as the download does). The legacy handler makes that one
  download on every \<open>Completed\<close> message, whatever the data field holds, and writes the
  decoded values into the graph. Neither downloads more than once.
\<close>

theorem completed_download_by_backend:
  "handle_response env (Completed rid (Some r)) graph w =
     (emit (Logged (Completed rid (Some r))) w, graph, Inr (Some r)) \<and>
   handle_response env (Completed rid None) graph w =
     (emit (Downloaded rid) (emit (Logged (Completed rid None)) w), graph,
      case download (py_float env) (get_stream env rid) of
        Inl e \<Rightarrow> Inl e
      | Inr buf \<Rightarrow> (case torch_load env buf of None \<Rightarrow> Inl DecodeError | Some x \<Rightarrow> Inr (Some x))) \<and>
   downloads (events (fst (handle_response env (Completed rid d) graph w))) =
     downloads (events w) @ (if d = None then [rid] else []) \<and>
   legacy_handle_response hooks env (Completed rid d) g w =
     (case download (py_float env) (get_stream env rid) of
        Inl e \<Rightarrow> (emit (Downloaded rid) (emit (Logged (Completed rid d)) w), g, Inl e)
      | Inr buf \<Rightarrow>
          (case torch_load env buf of
             None \<Rightarrow> (emit (Downloaded rid) (emit (Logged (Completed rid d)) w), g, Inl DecodeError)
           | Some x \<Rightarrow>
               (emit (Injected x) (emit (Downloaded rid) (emit (Logged (Completed rid d)) w)),
                fst (inject g x),
                case snd (inject g x) of Some e \<Rightarrow> Inl e | None \<Rightarrow> Inr (Completed rid d)))) \<and>
   downloads (events (fst (legacy_handle_response hooks env (Completed rid d) g w))) =
     downloads (events w) @ [rid]"
proof -
  have count: "downloads (events (fst (handle_response env (Completed rid d) graph w))) =
     downloads (events w) @ (if d = None then [rid] else [])"
  proof (cases d)
    case None
    then show ?thesis
      by (simp add: handle_completed_null emit_def downloads_append)
  next
    case (Some r)
    then show ?thesis
      by (simp add: handle_completed_inline emit_def downloads_append)
  qed
  show ?thesis
    using count handle_completed_inline [of env rid r graph w]
      handle_completed_null_stream [of env rid graph w]
      legacy_handle_completed [of hooks env rid d g w]
      legacy_completed_downloads [of hooks env rid d g w]
    by (simp only: simp_thms)
qed

theorem completed_download_by_backend_witness:
  "handle_response demo_remote_result (Completed ''job-42'' None) (Some demo_graph) demo_world =
     (\<lparr>config_job_id = Some ''job-42'', saved_job_id = Some ''job-42'',
       events = [Logged (Completed ''job-42'' None), Downloaded ''job-42'']\<rparr>,
      Some demo_graph, Inr (Some [(''b'', 10)])) \<and>
   handle_response demo_remote_result (Completed ''job-42'' (Some [(''b'', 99)])) (Some demo_graph)
      demo_world =
     (\<lparr>config_job_id = Some ''job-42'', saved_job_id = Some ''job-42'',
       events = [Logged (Completed ''job-42'' (Some [(''b'', 99)]))]\<rparr>,
      Some demo_graph, Inr (Some [(''b'', 99)]))"
proof -
  note both = completed_download_by_backend
    [where env = demo_remote_result and rid = "''job-42''" and r = "[(''b'', 99)]"
       and graph = "Some demo_graph" and w = demo_world]
  have dl: "download (py_float demo_remote_result) (get_stream demo_remote_result ''job-42'') =
      Inr ''abc''"
    by (simp add: demo_remote_result_def demo_remote_def download_def)
  have dec: "torch_load demo_remote_result ''abc'' = Some [(''b'', 10)]"
    by (simp add: demo_remote_result_def demo_remote_def)
  have null: "handle_response demo_remote_result (Completed ''job-42'' None) (Some demo_graph) demo_world =
     (\<lparr>config_job_id = Some ''job-42'', saved_job_id = Some ''job-42'',
       events = [Logged (Completed ''job-42'' None), Downloaded ''job-42'']\<rparr>,
      Some demo_graph, Inr (Some [(''b'', 10)]))"
    unfolding both [THEN conjunct2, THEN conjunct1] dl
    by (simp add: dec emit_def demo_world_def)
  have inline: "handle_response demo_remote_result (Completed ''job-42'' (Some [(''b'', 99)]))
      (Some demo_graph) demo_world =
     (\<lparr>config_job_id = Some ''job-42'', saved_job_id = Some ''job-42'',
       events = [Logged (Completed ''job-42'' (Some [(''b'', 99)]))]\<rparr>,
      Some demo_graph, Inr (Some [(''b'', 99)]))"
    unfolding both [THEN conjunct1]
    by (simp add: emit_def demo_world_def)
  from null inline show ?thesis by blast
qed

text \<open>
  C3, as the claim words it, fails on the legacy handler: a \<open>Completed\<close> message that
  carries its data inline still triggers the download, and what reaches the graph is the
  downloaded value, not the inline one.
\<close>

theorem legacy_completed_inline_counterexample:
  "downloads (events (fst (legacy_handle_response demo_hooks demo_remote_result
      (Completed ''job-42'' (Some [(''b'', 99)])) demo_graph demo_world))) = [''job-42''] \<and>
   lookup_cached (fst (snd (legacy_handle_response demo_hooks demo_remote_result
      (Completed ''job-42'' (Some [(''b'', 99)])) demo_graph demo_world))) ''b'' = Some 10"
  by (simp add: legacy_handle_response_def get_result_def download_def Let_def
        demo_remote_result_def demo_remote_def demo_graph_def demo_world_def emit_def)

subsection \<open>Polling a persisted job\<close>

lemma get_response_config:
  "config_job_id (fst (get_response self env w)) = config_job_id w \<and>
   saved_job_id (fst (get_response self env w)) = saved_job_id w"
proof (cases "get_status env (case job_id self of None \<Rightarrow> ''None'' | Some j \<Rightarrow> j)")
  case (Ok200 m)
  then show ?thesis
    using handle_response_config
      [of env m None "emit (Polled (case job_id self of None \<Rightarrow> ''None'' | Some j \<Rightarrow> j)) w"]
    by (simp add: get_response_def Let_def emit_def split_beta)
next
  case (Refused code reason)
  then show ?thesis by (simp add: get_response_def Let_def emit_def)
next
  case (Unreachable msg)
  then show ?thesis by (simp add: get_response_def Let_def emit_def)
qed

lemma get_response_result:
  assumes "job_id self = Some j"
  shows "snd (get_response self env w) =
     (case get_status env j of
        Ok200 m \<Rightarrow> snd (snd (handle_response env m None (emit (Polled j) w)))
      | Refused code reason \<Rightarrow> Inl (HTTPError reason)
      | Unreachable msg \<Rightarrow> Inl (TransportError msg))"
  using assms by (simp add: get_response_def Let_def split_beta split: http_reply.splits)

lemma get_response_some_completed:
  assumes "job_id self = Some j" and "snd (get_response self env w) = Inr (Some r)"
  shows "reply_completed (get_status env j)"
proof (cases "get_status env j")
  case (Ok200 m)
  with assms have "snd (snd (handle_response env m None (emit (Polled j) w))) = Inr (Some r)"
    by (simp add: get_response_result)
  then have "is_completed m" by (rule handle_response_result_completed)
  with Ok200 show ?thesis by simp
next
  case (Refused code reason)
  with assms show ?thesis by (simp add: get_response_result)
next
  case (Unreachable msg)
  with assms show ?thesis by (simp add: get_response_result)
qed

lemma get_response_none_not_completed:
  assumes "job_id self = Some j" and "snd (get_response self env w) = Inr None"
  shows "\<not> reply_completed (get_status env j)"
proof (cases "get_status env j")
  case (Ok200 m)
  with assms have "snd (snd (handle_response env m None (emit (Polled j) w))) = Inr None"
    by (simp add: get_response_result)
  then have "\<not> is_completed m" using handle_response_completed_result by blast
  with Ok200 show ?thesis by simp
next
  case (Refused code reason)
  then show ?thesis by simp
next
  case (Unreachable msg)
  then show ?thesis by simp
qed

lemma poll_outcome:
  assumes "job_id self = Some j"
  shows "non_blocking_request self env graph w =
     (case snd (get_response self env w) of
        Inr None \<Rightarrow> (fst (get_response self env w), Inr None)
      | r \<Rightarrow> (config_save ((fst (get_response self env w))\<lparr>config_job_id := None\<rparr>), r))"
  using assms
  by (simp add: non_blocking_request_def split: prod.splits sum.splits option.splits)

text \<open>
  C5. On a poll of a persisted job id: if the poll raises, the job id is cleared and saved
  in the state the exception leaves behind; if it does not raise, the job id is cleared and
  saved when the reply reports \<open>Completed\<close> (and a result is returned), and is left as it was,
  in memory and on disk, for any other reply.
\<close>

theorem poll_clears_job_id:
  assumes "job_id self = Some j"
  shows
  "(isl (snd (non_blocking_request self env graph w)) \<longrightarrow>
      config_job_id (fst (non_blocking_request self env graph w)) = None \<and>
      saved_job_id (fst (non_blocking_request self env graph w)) = None) \<and>
   (\<not> isl (snd (non_blocking_request self env graph w)) \<and> reply_completed (get_status env j) \<longrightarrow>
      config_job_id (fst (non_blocking_request self env graph w)) = None \<and>
      saved_job_id (fst (non_blocking_request self env graph w)) = None \<and>
      snd (non_blocking_request self env graph w) \<noteq> Inr None) \<and>
   (\<not> isl (snd (non_blocking_request self env graph w)) \<and> \<not> reply_completed (get_status env j) \<longrightarrow>
      config_job_id (fst (non_blocking_request self env graph w)) = config_job_id w \<and>
      saved_job_id (fst (non_blocking_request self env graph w)) = saved_job_id w \<and>
      snd (non_blocking_request self env graph w) = Inr None)"
proof (cases "snd (get_response self env w)")
  case (Inl e)
  then show ?thesis
    by (simp add: poll_outcome [OF assms] config_save_def)
next
  case (Inr res)
  show ?thesis
  proof (cases res)
    case None
    with Inr have none: "snd (get_response self env w) = Inr None" by simp
    have "\<not> reply_completed (get_status env j)"
      using get_response_none_not_completed [OF assms none] .
    then show ?thesis
      using none get_response_config [of self env w]
      by (simp add: poll_outcome [OF assms])
  next
    case (Some r)
    with Inr have some: "snd (get_response self env w) = Inr (Some r)" by simp
    have "reply_completed (get_status env j)"
      using get_response_some_completed [OF assms some] .
    then show ?thesis
      using some by (simp add: poll_outcome [OF assms] config_save_def)
  qed
qed

theorem poll_clears_job_id_witness:
  "snd (non_blocking_request demo_backend (demo_remote\<lparr>get_status := \<lambda>j. Refused 404 ''Not Found''\<rparr>)
      demo_graph demo_world) = Inl (HTTPError ''Not Found'') \<and>
   config_job_id (fst (non_blocking_request demo_backend
      (demo_remote\<lparr>get_status := \<lambda>j. Refused 404 ''Not Found''\<rparr>) demo_graph demo_world)) = None \<and>
   saved_job_id (fst (non_blocking_request demo_backend
      (demo_remote\<lparr>get_status := \<lambda>j. Refused 404 ''Not Found''\<rparr>) demo_graph demo_world)) = None \<and>
   snd (non_blocking_request demo_backend
      (demo_remote\<lparr>get_status := \<lambda>j. Ok200 (Completed j (Some [(''b'', 10)]))\<rparr>)
      demo_graph demo_world) = Inr (Some [(''b'', 10)]) \<and>
   config_job_id (fst (non_blocking_request demo_backend
      (demo_remote\<lparr>get_status := \<lambda>j. Ok200 (Completed j (Some [(''b'', 10)]))\<rparr>)
      demo_graph demo_world)) = None \<and>
   saved_job_id (fst (non_blocking_request demo_backend
      (demo_remote\<lparr>get_status := \<lambda>j. Ok200 (Completed j (Some [(''b'', 10)]))\<rparr>)
      demo_graph demo_world)) = None \<and>
   snd (non_blocking_request demo_backend demo_remote demo_graph demo_world) = Inr None \<and>
   config_job_id (fst (non_blocking_request demo_backend demo_remote demo_graph demo_world)) =
     Some ''job-42'' \<and>
   saved_job_id (fst (non_blocking_request demo_backend demo_remote demo_graph demo_world)) =
     Some ''job-42''"
proof -
  let ?refused = "demo_remote\<lparr>get_status := \<lambda>j. Refused 404 ''Not Found''\<rparr>"
  let ?completed = "demo_remote\<lparr>get_status := \<lambda>j. Ok200 (Completed j (Some [(''b'', 10)]))\<rparr>"
  have j: "job_id demo_backend = Some ''job-42''"
    by (simp add: demo_backend_def)
  have r1: "snd (non_blocking_request demo_backend ?refused demo_graph demo_world) =
      Inl (HTTPError ''Not Found'')"
    by (simp add: non_blocking_request_def get_response_def Let_def demo_backend_def)
  have r2: "snd (non_blocking_request demo_backend ?completed demo_graph demo_world) =
      Inr (Some [(''b'', 10)])"
    by (simp add: non_blocking_request_def get_response_def handle_response_def Let_def
          demo_backend_def)
  have r3: "snd (non_blocking_request demo_backend demo_remote demo_graph demo_world) = Inr None"
    by (simp add: non_blocking_request_def get_response_def handle_response_def Let_def
          demo_backend_def demo_remote_def)
  have running: "\<not> reply_completed (get_status demo_remote ''job-42'')"
    by (simp add: demo_remote_def)
  have c1: "config_job_id (fst (non_blocking_request demo_backend ?refused demo_graph demo_world)) = None \<and>
            saved_job_id (fst (non_blocking_request demo_backend ?refused demo_graph demo_world)) = None"
    using poll_clears_job_id [OF j, of ?refused demo_graph demo_world] by (simp add: r1)
  have c2: "config_job_id (fst (non_blocking_request demo_backend ?completed demo_graph demo_world)) = None \<and>
            saved_job_id (fst (non_blocking_request demo_backend ?completed demo_graph demo_world)) = None"
    using poll_clears_job_id [OF j, of ?completed demo_graph demo_world] by (simp add: r2)
  have c3: "config_job_id (fst (non_blocking_request demo_backend demo_remote demo_graph demo_world)) =
              config_job_id demo_world \<and>
            saved_job_id (fst (non_blocking_request demo_backend demo_remote demo_graph demo_world)) =
              saved_job_id demo_world"
    using poll_clears_job_id [OF j, of demo_remote demo_graph demo_world] running
    by (simp add: r3)
  show ?thesis
    using r1 r2 r3 c1 c2 c3 by (simp add: demo_world_def)
qed

subsection \<open>A poll submits nothing\<close>

lemma handle_response_events:
  "\<exists>new. events (fst (handle_response env m graph w)) = events w @ new \<and>
         filter is_submission new = []"
  by (cases m)
    (auto simp: handle_response_def emit_def get_result_def Let_def
          split: option.splits sum.splits prod.splits)







text \<open>
  C4, at the input where the code departs from the claim. A poll whose reply reports the
  error of node 0 handles the reply without a graph: \<^verbatim>\<open>graph.nodes\<close> is read on \<^verbatim>\<open>None\<close>, so
  what is raised is an \<^verbatim>\<open>AttributeError\<close>, nothing is printed, and neither the node index
  nor the server's message reaches the caller.
\<close>

theorem error_poll_raises_attribute_error:
  "non_blocking_request demo_backend (demo_remote\<lparr>get_status := \<lambda>j. Ok200 (Error j 0 ''boom'')\<rparr>)
      demo_graph demo_world =
     (\<lparr>config_job_id = None, saved_job_id = None,
       events = [Polled ''job-42'', Logged (Error ''job-42'' 0 ''boom'')]\<rparr>,
      Inl AttributeError)"
  by (simp add: non_blocking_request_def get_response_def handle_response_def Let_def
        demo_backend_def demo_world_def emit_def config_save_def)

text \<open>
  The same message on the duplex channel is handled with the caller's graph: the traceback
  recorded for node 0 is printed and the typed error carries the message and the index.
\<close>

lemma error_on_channel_raises_typed_error:
  "receive_loop demo_remote [Error ''job-42'' 0 ''boom''] demo_graph demo_world =
     (\<lparr>config_job_id = Some ''job-42'', saved_job_id = Some ''job-42'',
       events = [Logged (Error ''job-42'' 0 ''boom''), Printed (CHR 0x0A # ''line 1''),
                 TracebackLimit 0]\<rparr>,
      demo_graph, Some (Inl (NNsightError ''boom'' 0)))"
  by (simp add: handle_response_def Let_def py_index_def demo_graph_def demo_world_def emit_def)

subsection \<open>Injection, then execution\<close>


lemma set_cached_length: "set_cached k v g = Some g' \<Longrightarrow> length g' = length g"
  by (induction g arbitrary: g') (auto split: if_splits)

lemma inject_length: "length (fst (inject g deps)) = length g"
proof (induction deps arbitrary: g)
  case Nil
  then show ?case by simp
next
  case (Cons kv deps)
  obtain k v where kv: "kv = (k, v)" by (cases kv)
  show ?case
  proof (cases "set_cached k v g")
    case None
    with kv show ?thesis by simp
  next
    case (Some g')
    with kv Cons.IH [of g'] show ?thesis by (simp add: set_cached_length)
  qed
qed



lemma py_index_inject: "py_index (fst (inject g deps)) idx = py_index g idx"
  by (simp add: py_index_def inject_length)

lemma handle_stream_events:
  "events (fst (handle_response env (Stream rid idx deps) (Some g) w)) =
     events w @ Logged (Stream rid idx deps) # Injected deps #
       (case snd (inject g deps) of
          Some e \<Rightarrow> []
        | None \<Rightarrow> (case py_index g idx of
                     None \<Rightarrow> []
                   | Some i \<Rightarrow> [Executed i (fst (inject g deps))]))"
proof (cases "inject g deps")
  case (Pair g1 err)
  then have g1: "g1 = fst (inject g deps)" by simp
  show ?thesis
    using Pair py_index_inject [of g deps idx]
    by (auto simp: handle_response_def Let_def emit_def g1 [symmetric]
             split: option.splits prod.splits)
qed

lemma handle_stream:
  "handle_response env (Stream rid idx deps) (Some g) w =
     (let w1 = emit (Injected deps) (emit (Logged (Stream rid idx deps)) w);
          g1 = fst (inject g deps) in
      case snd (inject g deps) of
        Some e \<Rightarrow> (w1, Some g1, Inl e)
      | None \<Rightarrow>
          (case py_index g idx of
             None \<Rightarrow> (w1, Some g1, Inl IndexError)
           | Some i \<Rightarrow>
               (emit (Executed i g1) w1, Some (fst (execute env g1 i)),
                case snd (execute env g1 i) of Some e \<Rightarrow> Inl e | None \<Rightarrow> Inr None)))"
proof (cases "inject g deps")
  case (Pair g1 err)
  then have g1: "g1 = fst (inject g deps)" by simp
  show ?thesis
    using Pair py_index_inject [of g deps idx]
    by (auto simp: handle_response_def Let_def g1 [symmetric] split: option.splits prod.splits)
qed





subsection \<open>The receive loop\<close>

lemma handle_response_keeps_graph:
  "\<exists>g'. fst (snd (handle_response env m (Some g) w)) = Some g'"
  by (cases m)
    (auto simp: handle_response_def Let_def split: option.splits sum.splits prod.splits)

lemma receive_loop_append:
  "receive_loop env (pre @ ms) g w =
     (case receive_loop env pre g w of
        (w', g', None) \<Rightarrow> receive_loop env ms g' w'
      | (w', g', Some out) \<Rightarrow> (w', g', Some out))"
proof (induction pre arbitrary: g w)
  case Nil
  then show ?case by simp
next
  case (Cons m pre)
  obtain w1 g1 r where h: "handle_response env m (Some g) w = (w1, g1, r)"
    by (cases "handle_response env m (Some g) w") auto
  show ?case
  proof (cases r)
    case (Inl e)
    with h show ?thesis by simp
  next
    case (Inr res)
    show ?thesis
    proof (cases res)
      case None
      with h Inr Cons.IH [of "case_option g id g1" w1] show ?thesis by simp
    next
      case (Some x)
      with h Inr show ?thesis by simp
    qed
  qed
qed

lemma receive_loop_informational:
  "is_informational m \<Longrightarrow>
   receive_loop env (m # ms) g w = receive_loop env ms g (emit (Logged m) w)"
  by (cases m) (simp_all add: handle_informational)

lemma receive_loop_error:
  "\<exists>w' e. receive_loop env (Error rid nid msg # ms) g w = (w', g, Some (Inl e))"
  by (auto simp: handle_response_def Let_def split: option.splits)

lemma receive_loop_stream_ok:
  assumes "snd (inject g deps) = None" and "py_index g idx = Some i"
    and "snd (execute env (fst (inject g deps)) i) = None"
  shows "receive_loop env (Stream rid idx deps # ms) g w =
     receive_loop env ms (fst (execute env (fst (inject g deps)) i))
       (emit (Executed i (fst (inject g deps)))
          (emit (Injected deps) (emit (Logged (Stream rid idx deps)) w)))"
  using assms by (simp add: handle_stream Let_def)

lemma receive_loop_stream_fails:
  assumes "\<not> stream_ok env g idx deps"
  shows "\<exists>w' g' e. receive_loop env (Stream rid idx deps # ms) g w = (w', g', Some (Inl e))"
  using assms
  by (auto simp: stream_ok_def handle_stream Let_def split: option.splits)

text \<open>
  C2, as the code has it. The loop ends at the first message whose handling returns a
  result or raises, and consumes nothing after it. \<open>Queued\<close> and \<open>Running\<close> never end it;
  \<open>Completed\<close> with inline data returns that data; \<open>Completed\<close> with null data ends it with
  whatever the download gives, the result or the exception; \<open>Error\<close> always raises; \<open>Stream\<close>
  keeps the loop waiting when injection, node lookup and execution succeed, and raises
  otherwise. With no message left the loop is still waiting.
\<close>

theorem receive_loop_ends_at_first_stop:
  "receive_loop env [] g w = (w, g, None) \<and>
   (is_informational m \<longrightarrow>
      receive_loop env (m # ms) g w = receive_loop env ms g (emit (Logged m) w)) \<and>
   receive_loop env (Completed rid (Some r) # ms) g w =
     (emit (Logged (Completed rid (Some r))) w, g, Some (Inr r)) \<and>
   receive_loop env (Completed rid None # ms) g w =
     (emit (Downloaded rid) (emit (Logged (Completed rid None)) w), g,
      Some (snd (get_result env rid (emit (Logged (Completed rid None)) w)))) \<and>
   (\<exists>w' e. receive_loop env (Error rid nid msg # ms) g w = (w', g, Some (Inl e))) \<and>
   (snd (inject g deps) = None \<and> py_index g idx = Some i \<and>
    snd (execute env (fst (inject g deps)) i) = None \<longrightarrow>
      receive_loop env (Stream rid idx deps # ms) g w =
        receive_loop env ms (fst (execute env (fst (inject g deps)) i))
          (emit (Executed i (fst (inject g deps)))
             (emit (Injected deps) (emit (Logged (Stream rid idx deps)) w)))) \<and>
   (\<not> stream_ok env g idx deps \<longrightarrow>
      (\<exists>w' g' e. receive_loop env (Stream rid idx deps # ms) g w = (w', g', Some (Inl e)))) \<and>
   receive_loop env (pre @ ms) g w =
     (case receive_loop env pre g w of
        (w', g', None) \<Rightarrow> receive_loop env ms g' w'
      | (w', g', Some out) \<Rightarrow> (w', g', Some out))"
proof -
  have inline: "receive_loop env (Completed rid (Some r) # ms) g w =
     (emit (Logged (Completed rid (Some r))) w, g, Some (Inr r))"
    by (simp add: handle_completed_inline)
  have null: "receive_loop env (Completed rid None # ms) g w =
     (emit (Downloaded rid) (emit (Logged (Completed rid None)) w), g,
      Some (snd (get_result env rid (emit (Logged (Completed rid None)) w))))"
    by (simp add: handle_completed_null split: sum.splits)
  show ?thesis
    using inline null receive_loop_informational [of m env ms g w]
      receive_loop_error [of env rid nid msg ms g w]
      receive_loop_stream_ok [of g deps idx i env rid ms w]
      receive_loop_stream_fails [of env g idx deps rid ms w]
      receive_loop_append [of env pre ms g w]
    by simp
qed

theorem receive_loop_ends_at_first_stop_witness:
  "receive_loop demo_remote
     ([Queued ''job-42'', Running ''job-42''] @
      [Completed ''job-42'' (Some [(''b'', 10)]), Queued ''job-42'']) demo_graph demo_world =
     (\<lparr>config_job_id = Some ''job-42'', saved_job_id = Some ''job-42'',
       events = [Logged (Queued ''job-42''), Logged (Running ''job-42''),
                 Logged (Completed ''job-42'' (Some [(''b'', 10)]))]\<rparr>,
      demo_graph, Some (Inr [(''b'', 10)])) \<and>
   receive_loop demo_remote [Stream ''job-42'' 1 [(''a'', 5)]] demo_graph demo_world =
     (\<lparr>config_job_id = Some ''job-42'', saved_job_id = Some ''job-42'',
       events = [Logged (Stream ''job-42'' 1 [(''a'', 5)]), Injected [(''a'', 5)],
                 Executed 1 (fst (inject demo_graph [(''a'', 5)]))]\<rparr>,
      fst (inject demo_graph [(''a'', 5)]), None)"
proof -
  have pre: "receive_loop demo_remote [Queued ''job-42'', Running ''job-42''] demo_graph demo_world =
      (\<lparr>config_job_id = Some ''job-42'', saved_job_id = Some ''job-42'',
        events = [Logged (Queued ''job-42''), Logged (Running ''job-42'')]\<rparr>, demo_graph, None)"
    by (simp add: handle_informational emit_def demo_world_def)
  have ok: "snd (inject demo_graph [(''a'', 5)]) = None"
    by (simp add: demo_graph_def)
  have ix: "py_index demo_graph 1 = Some 1"
    by (simp add: py_index_def demo_graph_def)
  have ex: "execute demo_remote = (\<lambda>g i. (g, None))"
    by (simp add: demo_remote_def)
  note steps = receive_loop_ends_at_first_stop
  have app: "receive_loop demo_remote
     ([Queued ''job-42'', Running ''job-42''] @
      [Completed ''job-42'' (Some [(''b'', 10)]), Queued ''job-42'']) demo_graph demo_world =
     (case receive_loop demo_remote [Queued ''job-42'', Running ''job-42''] demo_graph demo_world of
        (w', g', None) \<Rightarrow>
          receive_loop demo_remote [Completed ''job-42'' (Some [(''b'', 10)]), Queued ''job-42''] g' w'
      | (w', g', Some out) \<Rightarrow> (w', g', Some out))"
    by (rule steps [where env = demo_remote and g = demo_graph and w = demo_world
        and pre = "[Queued ''job-42'', Running ''job-42'']"
        and ms = "[Completed ''job-42'' (Some [(''b'', 10)]), Queued ''job-42'']",
        THEN conjunct2, THEN conjunct2, THEN conjunct2, THEN conjunct2, THEN conjunct2, THEN conjunct2, THEN conjunct2])
  have first: "receive_loop demo_remote
     ([Queued ''job-42'', Running ''job-42''] @
      [Completed ''job-42'' (Some [(''b'', 10)]), Queued ''job-42'']) demo_graph demo_world =
     (\<lparr>config_job_id = Some ''job-42'', saved_job_id = Some ''job-42'',
       events = [Logged (Queued ''job-42''), Logged (Running ''job-42''),
                 Logged (Completed ''job-42'' (Some [(''b'', 10)]))]\<rparr>,
      demo_graph, Some (Inr [(''b'', 10)]))"
    unfolding app pre by (simp add: handle_completed_inline emit_def)
  have second: "receive_loop demo_remote [Stream ''job-42'' 1 [(''a'', 5)]] demo_graph demo_world =
     (\<lparr>config_job_id = Some ''job-42'', saved_job_id = Some ''job-42'',
       events = [Logged (Stream ''job-42'' 1 [(''a'', 5)]), Injected [(''a'', 5)],
                 Executed 1 (fst (inject demo_graph [(''a'', 5)]))]\<rparr>,
      fst (inject demo_graph [(''a'', 5)]), None)"
    using steps [where env = demo_remote and g = demo_graph and w = demo_world
        and deps = "[(''a'', 5)]" and idx = 1 and i = 1 and rid = "''job-42''" and ms = "[]",
        THEN conjunct2, THEN conjunct2, THEN conjunct2, THEN conjunct2, THEN conjunct2, THEN conjunct1]
      ok ix
    by (simp add: ex emit_def demo_world_def)
  from first second show ?thesis by blast
qed

text \<open>
  C2, as the claim words it, fails on a \<open>Completed\<close> message: with null data and a result
  endpoint that sends no \<^verbatim>\<open>Content-length\<close> header the loop ends by raising.
\<close>

theorem completed_message_raises_counterexample:
  "snd (snd (receive_loop (demo_remote\<lparr>get_stream := \<lambda>rid. Opened Map.empty [] False\<rparr>)
      [Completed ''job-42'' None] demo_graph demo_world)) =
     Some (Inl (KeyError ''Content-length''))"
  by (simp add: handle_response_def get_result_def download_def Let_def)

subsection \<open>Preprocessing a copy\<close>

lemma removeAll_as_filter: "removeAll a xs = filter (\<lambda>b. b \<noteq> a) xs"
  by (induction xs) auto

lemma prune_in_fields:
  "node_at (prune_in s a) = node_at s" "node_graph (prune_in s a) = node_graph s"
  "next_addr (prune_in s a) = next_addr s"
  by (simp_all add: prune_in_def)

lemma prune_local_in_fields:
  "node_at (prune_local_in as s) = node_at s \<and> node_graph (prune_local_in as s) = node_graph s \<and>
   next_addr (prune_local_in as s) = next_addr s"
  by (induction as arbitrary: s) (simp_all add: prune_in_fields)

lemma prune_local_in_other:
  assumes "\<forall>a \<in> set as. node_graph s a = g'" and "g \<noteq> g'"
  shows "graph_nodes (prune_local_in as s) g = graph_nodes s g"
  using assms
proof (induction as arbitrary: s)
  case Nil
  then show ?case by simp
next
  case (Cons a as)
  let ?s = "if node_target (node_at s a) = LocalContext then prune_in s a else s"
  have own: "\<forall>b \<in> set as. node_graph ?s b = g'"
    using Cons.prems(1) by (simp add: prune_in_fields)
  have "graph_nodes ?s g = graph_nodes s g"
    using Cons.prems by (simp add: prune_in_def)
  with Cons.IH [OF own Cons.prems(2)] show ?case by simp
qed

lemma prune_local_in_own:
  assumes "\<forall>a \<in> set as. node_graph s a = g'"
  shows "graph_nodes (prune_local_in as s) g' =
     filter (\<lambda>b. \<not> (b \<in> set as \<and> node_target (node_at s b) = LocalContext)) (graph_nodes s g')"
  using assms
proof (induction as arbitrary: s)
  case Nil
  then show ?case by simp
next
  case (Cons a as)
  let ?s = "if node_target (node_at s a) = LocalContext then prune_in s a else s"
  have own: "\<forall>b \<in> set as. node_graph ?s b = g'"
    using Cons.prems by (simp add: prune_in_fields)
  have at: "node_at ?s = node_at s"
    by (simp add: prune_in_fields)
  have here: "graph_nodes ?s g' =
      filter (\<lambda>b. \<not> (b = a \<and> node_target (node_at s b) = LocalContext)) (graph_nodes s g')"
  proof (cases "node_target (node_at s a) = LocalContext")
    case True
    have "graph_nodes ?s g' = removeAll a (graph_nodes s g')"
      using True Cons.prems by (simp add: prune_in_def)
    also have "\<dots> = filter (\<lambda>b. b \<noteq> a) (graph_nodes s g')"
      by (rule removeAll_as_filter)
    also have "\<dots> =
        filter (\<lambda>b. \<not> (b = a \<and> node_target (node_at s b) = LocalContext)) (graph_nodes s g')"
      using True by (intro filter_cong) auto
    finally show ?thesis .
  next
    case False
    then have "filter (\<lambda>b. \<not> (b = a \<and> node_target (node_at s b) = LocalContext)) (graph_nodes s g') =
        graph_nodes s g'"
      by (intro filter_True) auto
    with False show ?thesis by simp
  qed
  have "graph_nodes (prune_local_in (a # as) s) g' = graph_nodes (prune_local_in as ?s) g'"
    by simp
  also have "\<dots> =
      filter (\<lambda>b. \<not> (b \<in> set as \<and> node_target (node_at s b) = LocalContext)) (graph_nodes ?s g')"
    using Cons.IH [OF own] by (simp only: at)
  also have "\<dots> =
      filter (\<lambda>b. \<not> (b \<in> set (a # as) \<and> node_target (node_at s b) = LocalContext)) (graph_nodes s g')"
  proof -
    have "(\<lambda>b. \<not> (b = a \<and> node_target (node_at s b) = LocalContext) \<and>
               \<not> (b \<in> set as \<and> node_target (node_at s b) = LocalContext)) =
          (\<lambda>b. \<not> (b \<in> set (a # as) \<and> node_target (node_at s b) = LocalContext))"
      by auto
    then show ?thesis
      unfolding here filter_filter by (simp only:)
  qed
  finally show ?case .
qed

lemma graph_copy_in_addr: "snd (graph_copy_in s ga) = next_addr s"
  by (simp add: graph_copy_in_def Let_def)

lemma graph_copy_in_other:
  "g \<noteq> next_addr s \<Longrightarrow> graph_nodes (fst (graph_copy_in s ga)) g = graph_nodes s g"
  by (simp add: graph_copy_in_def Let_def)

lemma graph_copy_in_new:
  "graph_nodes (fst (graph_copy_in s ga)) (next_addr s) =
     map (\<lambda>k. Suc (next_addr s + k)) [0 ..< length (graph_nodes s ga)]"
  by (simp add: graph_copy_in_def Let_def)

lemma graph_copy_in_old_node:
  "a \<le> next_addr s \<Longrightarrow> node_at (fst (graph_copy_in s ga)) a = node_at s a"
  by (simp add: graph_copy_in_def Let_def)

lemma graph_copy_in_new_node:
  "k < length (graph_nodes s ga) \<Longrightarrow>
   node_at (fst (graph_copy_in s ga)) (Suc (next_addr s + k)) = node_at s (graph_nodes s ga ! k)"
  by (simp add: graph_copy_in_def Let_def)

lemma graph_copy_in_owner:
  "k < length (graph_nodes s ga) \<Longrightarrow>
   node_graph (fst (graph_copy_in s ga)) (Suc (next_addr s + k)) = next_addr s"
  by (simp add: graph_copy_in_def Let_def)

lemma preprocess_in_parts:
  "snd (preprocess_in s ga) = next_addr s"
  "fst (preprocess_in s ga) =
     prune_local_in (graph_nodes (fst (graph_copy_in s ga)) (next_addr s)) (fst (graph_copy_in s ga))"
  by (simp_all add: preprocess_in_def split_beta graph_copy_in_addr)

lemma copy_nodes_owned:
  "\<forall>a \<in> set (graph_nodes (fst (graph_copy_in s ga)) (next_addr s)).
     node_graph (fst (graph_copy_in s ga)) a = next_addr s"
  by (auto simp: graph_copy_in_new graph_copy_in_owner)

lemma preprocess_in_original_nodes:
  assumes "allocated s ga"
  shows "graph_nodes (fst (preprocess_in s ga)) ga = graph_nodes s ga"
proof -
  from assms have ne: "ga \<noteq> next_addr s" by (simp add: allocated_def)
  have "graph_nodes (fst (preprocess_in s ga)) ga = graph_nodes (fst (graph_copy_in s ga)) ga"
    unfolding preprocess_in_parts
    by (rule prune_local_in_other [OF copy_nodes_owned ne])
  also have "\<dots> = graph_nodes s ga"
    by (rule graph_copy_in_other [OF ne])
  finally show ?thesis .
qed

lemma preprocess_in_original_node:
  assumes "allocated s ga" and "a \<in> set (graph_nodes s ga)"
  shows "node_at (fst (preprocess_in s ga)) a = node_at s a"
proof -
  from assms have "a \<le> next_addr s" by (auto simp: allocated_def)
  then show ?thesis
    by (simp add: preprocess_in_parts prune_local_in_fields graph_copy_in_old_node)
qed

lemma preprocess_in_original:
  assumes "allocated s ga"
  shows "read_graph (fst (preprocess_in s ga)) ga = read_graph s ga"
  using assms
  by (simp add: read_graph_def preprocess_in_original_nodes preprocess_in_original_node)

lemma copy_reads_as_original:
  "map (node_at (fst (graph_copy_in s ga))) (graph_nodes (fst (graph_copy_in s ga)) (next_addr s)) =
     read_graph s ga"
proof -
  have "map (node_at (fst (graph_copy_in s ga))) (graph_nodes (fst (graph_copy_in s ga)) (next_addr s)) =
      map (\<lambda>k. node_at s (graph_nodes s ga ! k)) [0 ..< length (graph_nodes s ga)]"
    by (simp add: graph_copy_in_new graph_copy_in_new_node)
  also have "\<dots> = map (node_at s) (map (\<lambda>k. graph_nodes s ga ! k) [0 ..< length (graph_nodes s ga)])"
    by simp
  also have "\<dots> = map (node_at s) (graph_nodes s ga)"
    by (simp only: map_nth)
  finally show ?thesis by (simp add: read_graph_def)
qed

lemma preprocess_in_copy:
  "read_graph (fst (preprocess_in s ga)) (snd (preprocess_in s ga)) =
     filter (\<lambda>n. node_target n \<noteq> LocalContext) (read_graph s ga)"
proof -
  let ?s1 = "fst (graph_copy_in s ga)"
  let ?new = "graph_nodes ?s1 (next_addr s)"
  have "graph_nodes (fst (preprocess_in s ga)) (next_addr s) =
      filter (\<lambda>b. \<not> (b \<in> set ?new \<and> node_target (node_at ?s1 b) = LocalContext)) ?new"
    unfolding preprocess_in_parts by (rule prune_local_in_own [OF copy_nodes_owned])
  also have "\<dots> = filter (\<lambda>b. node_target (node_at ?s1 b) \<noteq> LocalContext) ?new"
    by (rule filter_cong) auto
  finally have nodes: "graph_nodes (fst (preprocess_in s ga)) (next_addr s) =
      filter (\<lambda>b. node_target (node_at ?s1 b) \<noteq> LocalContext) ?new" .
  have "read_graph (fst (preprocess_in s ga)) (snd (preprocess_in s ga)) =
      map (node_at ?s1) (filter (\<lambda>b. node_target (node_at ?s1 b) \<noteq> LocalContext) ?new)"
    by (simp add: read_graph_def nodes preprocess_in_parts(1))
      (simp add: preprocess_in_parts(2) prune_local_in_fields)
  also have "\<dots> = filter (\<lambda>n. node_target n \<noteq> LocalContext) (map (node_at ?s1) ?new)"
    by (simp add: filter_map comp_def)
  also have "\<dots> = filter (\<lambda>n. node_target n \<noteq> LocalContext) (read_graph s ga)"
    by (simp only: copy_reads_as_original)
  finally show ?thesis .
qed

lemma preprocess_in_fresh:
  assumes "allocated s ga"
  shows "snd (preprocess_in s ga) \<noteq> ga"
    and "set (graph_nodes (fst (preprocess_in s ga)) (snd (preprocess_in s ga))) \<inter>
         set (graph_nodes s ga) = {}"
proof -
  from assms show "snd (preprocess_in s ga) \<noteq> ga"
    by (simp add: preprocess_in_parts allocated_def)
  let ?s1 = "fst (graph_copy_in s ga)"
  have "graph_nodes (fst (preprocess_in s ga)) (next_addr s) =
      filter (\<lambda>b. \<not> (b \<in> set (graph_nodes ?s1 (next_addr s)) \<and>
                      node_target (node_at ?s1 b) = LocalContext)) (graph_nodes ?s1 (next_addr s))"
    unfolding preprocess_in_parts by (rule prune_local_in_own [OF copy_nodes_owned])
  then have "set (graph_nodes (fst (preprocess_in s ga)) (next_addr s)) \<subseteq>
      set (graph_nodes ?s1 (next_addr s))"
    by auto
  moreover have "\<forall>a \<in> set (graph_nodes ?s1 (next_addr s)). next_addr s < a"
    by (auto simp: graph_copy_in_new)
  moreover have "\<forall>a \<in> set (graph_nodes s ga). a < next_addr s"
    using assms by (simp add: allocated_def)
  ultimately show "set (graph_nodes (fst (preprocess_in s ga)) (snd (preprocess_in s ga))) \<inter>
         set (graph_nodes s ga) = {}"
    unfolding preprocess_in_parts(1) by fastforce
qed

text \<open>On values, with the nodes told apart by their indices, the loop keeps what is not local.\<close>

lemma prune_local_filter:
  "prune_local ns g =
     filter (\<lambda>m. \<forall>n \<in> set ns. node_target n = LocalContext \<longrightarrow> node_index n \<noteq> node_index m) g"
proof (induction ns arbitrary: g)
  case Nil
  then show ?case by simp
next
  case (Cons n ns)
  show ?case
  proof (cases "node_target n = LocalContext")
    case True
    have "prune_local (n # ns) g =
        filter (\<lambda>m. \<forall>k \<in> set ns. node_target k = LocalContext \<longrightarrow> node_index k \<noteq> node_index m)
          (filter (\<lambda>m. node_index m \<noteq> node_index n) g)"
      using True by (simp add: Cons.IH prune_def)
    also have "\<dots> =
        filter (\<lambda>m. \<forall>k \<in> set (n # ns). node_target k = LocalContext \<longrightarrow> node_index k \<noteq> node_index m) g"
      using True unfolding filter_filter by (intro filter_cong) auto
    finally show ?thesis .
  next
    case False
    then show ?thesis by (simp add: Cons.IH)
  qed
qed

lemma preprocess_filter:
  assumes "distinct (map node_index g)"
  shows "preprocess g = filter (\<lambda>n. node_target n \<noteq> LocalContext) g"
proof -
  have inj: "inj_on node_index (set g)"
    using assms by (simp add: distinct_map)
  have "preprocess g =
      filter (\<lambda>m. \<forall>n \<in> set g. node_target n = LocalContext \<longrightarrow> node_index n \<noteq> node_index m) g"
    by (simp add: preprocess_def graph_copy_def prune_local_filter)
  also have "\<dots> = filter (\<lambda>n. node_target n \<noteq> LocalContext) g"
  proof (rule filter_cong [OF refl])
    fix m assume m: "m \<in> set g"
    show "(\<forall>n \<in> set g. node_target n = LocalContext \<longrightarrow> node_index n \<noteq> node_index m) =
          (node_target m \<noteq> LocalContext)"
      using m inj by (auto dest: inj_onD)
  qed
  finally show ?thesis .
qed

subsection \<open>What each kind of request serializes\<close>

lemma serialize_world: "fst (serialize self env g w) = emit (Serialized g) w"
  by (simp add: serialize_def Let_def)

lemma submit_request_events:
  "\<exists>new. events (fst (submit_request env d h w)) = events w @ new"
proof (cases "post_request env d (dict_set ''Content-Type'' ''application/octet-stream'' h)")
  case (Ok200 m)
  obtain new where
    "events (fst (handle_response env m None
        (emit (Posted d (dict_set ''Content-Type'' ''application/octet-stream'' h)) w))) =
     events (emit (Posted d (dict_set ''Content-Type'' ''application/octet-stream'' h)) w) @ new"
    using handle_response_events by blast
  with Ok200 show ?thesis
    by (cases "handle_response env m None
          (emit (Posted d (dict_set ''Content-Type'' ''application/octet-stream'' h)) w)")
       (auto simp: submit_request_def Let_def emit_def split: sum.splits)
next
  case (Refused code detail)
  then show ?thesis by (simp add: submit_request_def Let_def emit_def)
next
  case (Unreachable msg)
  then show ?thesis by (simp add: submit_request_def Let_def emit_def)
qed

lemma receive_loop_events:
  "\<exists>new. events (fst (receive_loop env ms g w)) = events w @ new"
proof (induction ms arbitrary: g w)
  case Nil
  then show ?case by simp
next
  case (Cons m ms)
  obtain w1 g1 r where h: "handle_response env m (Some g) w = (w1, g1, r)"
    by (cases "handle_response env m (Some g) w") auto
  obtain new where new: "events w1 = events w @ new"
    using handle_response_events [of env m "Some g" w] h by auto
  show ?case
  proof (cases r)
    case (Inl e)
    with h new show ?thesis by simp
  next
    case (Inr res)
    show ?thesis
    proof (cases res)
      case None
      obtain more where "events (fst (receive_loop env ms (case_option g id g1) w1)) = events w1 @ more"
        using Cons.IH by blast
      with h Inr None new show ?thesis by simp
    next
      case (Some x)
      with h Inr new show ?thesis by simp
    qed
  qed
qed

lemma blocking_request_serializes_copy:
  assumes "connect env = Some sid"
  shows "\<exists>rest. events (fst (blocking_request self env graph w)) =
           events w @ Connected # Serialized (preprocess graph) # rest"
proof -
  let ?w1 = "emit (Serialized (preprocess graph)) (emit Connected w)"
  obtain out where ser: "serialize self env (preprocess graph) (emit Connected w) = (?w1, out)"
    using serialize_world [of self env "preprocess graph" "emit Connected w"]
    by (cases "serialize self env (preprocess graph) (emit Connected w)") auto
  show ?thesis
  proof (cases out)
    case (Inl e)
    with ser assms show ?thesis
      by (simp add: blocking_request_def Let_def emit_def)
  next
    case (Inr dh)
    obtain d h where dh: "dh = (d, h)" by (cases dh)
    let ?h = "dict_set ''session_id'' sid h"
    obtain w2 r where sub: "submit_request env d ?h ?w1 = (w2, r)"
      by (cases "submit_request env d ?h ?w1") auto
    obtain new where new: "events w2 = events ?w1 @ new"
      using submit_request_events [of env d ?h ?w1] sub by auto
    show ?thesis
    proof (cases r)
      case (Inl e)
      with ser Inr dh sub new assms show ?thesis
        by (simp add: blocking_request_def Let_def emit_def)
    next
      case (Inr m)
      obtain more where "events (fst (receive_loop env (inbox env) graph w2)) = events w2 @ more"
        using receive_loop_events by blast
      with ser \<open>out = Inr dh\<close> dh sub new Inr assms show ?thesis
        by (simp add: blocking_request_def Let_def emit_def)
    qed
  qed
qed

lemma submission_serializes_original:
  assumes "job_id self = None"
  shows "\<exists>rest. events (fst (non_blocking_request self env graph w)) =
           events w @ Serialized graph # rest"
proof -
  let ?w1 = "emit (Serialized graph) w"
  obtain out where ser: "serialize self env graph w = (?w1, out)"
    using serialize_world [of self env graph w]
    by (cases "serialize self env graph w") auto
  show ?thesis
  proof (cases out)
    case (Inl e)
    with ser assms show ?thesis
      by (simp add: non_blocking_request_def emit_def)
  next
    case (Inr dh)
    obtain d h where dh: "dh = (d, h)" by (cases dh)
    obtain w2 r where sub: "submit_request env d h ?w1 = (w2, r)"
      by (cases "submit_request env d h ?w1") auto
    obtain new where new: "events w2 = events ?w1 @ new"
      using submit_request_events [of env d h ?w1] sub by auto
    from ser Inr dh sub new assms show ?thesis
      by (cases r) (simp_all add: non_blocking_request_def emit_def config_save_def)
  qed
qed

text \<open>
  C8, as the code has it. \<^verbatim>\<open>preprocess\<close> returns a graph object of its own, sharing no node
  with the original, whose nodes are copies of the original's nodes that are not
  \<open>LocalContext\<close>, in order; the original keeps its node list and every one of its nodes
  keeps its fields, cached value included. Serializing changes nothing but the record of
  effects. A blocking request serializes that pruned copy; a non-blocking submission
  serializes the caller's graph itself, with nothing pruned.
\<close>

theorem preprocess_copy_frame:
  assumes "allocated s ga"
  shows
  "snd (preprocess_in s ga) \<noteq> ga \<and>
   set (graph_nodes (fst (preprocess_in s ga)) (snd (preprocess_in s ga))) \<inter>
     set (graph_nodes s ga) = {} \<and>
   graph_nodes (fst (preprocess_in s ga)) ga = graph_nodes s ga \<and>
   (\<forall>a \<in> set (graph_nodes s ga). node_at (fst (preprocess_in s ga)) a = node_at s a) \<and>
   read_graph (fst (preprocess_in s ga)) (snd (preprocess_in s ga)) =
     filter (\<lambda>n. node_target n \<noteq> LocalContext) (read_graph s ga) \<and>
   (distinct (map node_index (read_graph s ga)) \<longrightarrow>
      read_graph (fst (preprocess_in s ga)) (snd (preprocess_in s ga)) =
        preprocess (read_graph s ga)) \<and>
   fst (serialize self env graph w) = emit (Serialized graph) w \<and>
   (connect env = Some sid \<longrightarrow>
      (\<exists>rest. events (fst (blocking_request self env graph w)) =
         events w @ Connected # Serialized (preprocess graph) # rest)) \<and>
   (job_id self = None \<longrightarrow>
      (\<exists>rest. events (fst (non_blocking_request self env graph w)) =
         events w @ Serialized graph # rest))"
proof -
  have link: "read_graph (fst (preprocess_in s ga)) (snd (preprocess_in s ga)) =
        preprocess (read_graph s ga)"
    if "distinct (map node_index (read_graph s ga))"
    using that by (simp add: preprocess_in_copy preprocess_filter)
  show ?thesis
    using preprocess_in_fresh [OF assms] preprocess_in_original_nodes [OF assms]
      preprocess_in_original_node [OF assms] preprocess_in_copy [of s ga] link
      serialize_world [of self env graph w]
      blocking_request_serializes_copy [of env sid self graph w]
      submission_serializes_original [of self env graph w]
    by blast
qed

theorem preprocess_copy_frame_witness:
  "snd (preprocess_in demo_store 0) = 3 \<and>
   graph_nodes (fst (preprocess_in demo_store 0)) 0 = [1, 2] \<and>
   read_graph (fst (preprocess_in demo_store 0)) 0 = demo_graph \<and>
   read_graph (fst (preprocess_in demo_store 0)) (snd (preprocess_in demo_store 0)) = [demo_graph ! 0] \<and>
   preprocess demo_graph = [demo_graph ! 0]"
proof -
  have al: "allocated demo_store 0"
    by (simp add: allocated_def demo_store_def)
  have rd: "read_graph demo_store 0 = demo_graph"
    by (simp add: read_graph_def demo_store_def demo_graph_def)
  have ns: "graph_nodes demo_store 0 = [1, 2]"
    by (simp add: demo_store_def)
  have dist: "distinct (map node_index demo_graph)"
    by (simp add: demo_graph_def)
  have flt: "filter (\<lambda>n. node_target n \<noteq> LocalContext) demo_graph = [demo_graph ! 0]"
    by (simp add: demo_graph_def)
  have addr: "snd (preprocess_in demo_store 0) = 3"
    by (simp add: preprocess_in_parts demo_store_def)
  note frame = preprocess_copy_frame [OF al, of demo_backend demo_remote demo_graph demo_world "''sid-1''"]
  have orig: "graph_nodes (fst (preprocess_in demo_store 0)) 0 = [1, 2]"
    using frame ns by simp
  have same: "\<forall>a \<in> set (graph_nodes demo_store 0).
      node_at (fst (preprocess_in demo_store 0)) a = node_at demo_store a"
    using frame by blast
  have "read_graph (fst (preprocess_in demo_store 0)) 0 = read_graph demo_store 0"
    using same orig ns by (simp add: read_graph_def)
  then have keep: "read_graph (fst (preprocess_in demo_store 0)) 0 = demo_graph"
    by (simp add: rd)
  have copy: "read_graph (fst (preprocess_in demo_store 0)) (snd (preprocess_in demo_store 0)) =
      [demo_graph ! 0]"
    using frame by (simp add: rd flt)
  have "distinct (map node_index (read_graph demo_store 0)) \<longrightarrow>
      read_graph (fst (preprocess_in demo_store 0)) (snd (preprocess_in demo_store 0)) =
        preprocess (read_graph demo_store 0)"
    by (rule frame [THEN conjunct2, THEN conjunct2, THEN conjunct2, THEN conjunct2, THEN conjunct2,
          THEN conjunct1])
  then have "read_graph (fst (preprocess_in demo_store 0)) (snd (preprocess_in demo_store 0)) =
      preprocess demo_graph"
    unfolding rd using dist by blast
  with copy have val: "preprocess demo_graph = [demo_graph ! 0]" by simp
  from addr orig keep copy val show ?thesis by blast
qed

text \<open>
  C8, as the claim words it, fails for a non-blocking submission: the graph that is
  serialized and posted is the caller's own, and its \<open>LocalContext\<close> node is still in it.
\<close>

theorem submission_not_pruned_counterexample:
  "events (fst (non_blocking_request (demo_backend\<lparr>job_id := None\<rparr>) demo_remote demo_graph
      demo_world)) =
     [Serialized demo_graph,
      Posted ''ab'' [(''model_key'', ''model''), (''format'', ''json''), (''zlib'', ''False''),
                     (''Content-Type'', ''application/octet-stream'')],
      Logged (Queued ''job-42'')] \<and>
   node_target (demo_graph ! 1) = LocalContext"
  by (simp add: non_blocking_request_def serialize_def submit_request_def handle_response_def
        Let_def demo_backend_def demo_remote_def demo_world_def demo_graph_def emit_def
        config_save_def)

subsection \<open>Further observations\<close>

text \<open>
  The declared size only feeds the progress bar: a stream that ends without an exception
  is returned as it came, also when it is shorter than the header announced.
\<close>

lemma short_stream_is_returned:
  "download (py_float demo_remote) (Opened [''Content-length'' \<mapsto> ''3''] [''ab''] False) = Inr ''ab''"
  by (simp add: download_def demo_remote_def)

text \<open>
  A \<open>Stream\<close> message whose index names no node ends the receive loop: the values are
  written, the lookup raises, no node runs.
\<close>

lemma stream_out_of_range_ends_loop:
  "receive_loop demo_remote [Stream ''job-42'' 7 [(''a'', 5)], Queued ''job-42''] demo_graph demo_world =
     (\<lparr>config_job_id = Some ''job-42'', saved_job_id = Some ''job-42'',
       events = [Logged (Stream ''job-42'' 7 [(''a'', 5)]), Injected [(''a'', 5)]]\<rparr>,
      fst (inject demo_graph [(''a'', 5)]), Some (Inl IndexError))"
  by (simp add: handle_stream Let_def py_index_def demo_graph_def demo_world_def emit_def)

text \<open>
  A backend built without an explicit job id takes the persisted one, so a persisted job
  id is what makes a non-blocking call a poll.
\<close>

lemma init_backend_persisted:
  "job_id (init_backend key block None z f w) = config_job_id w"
  "job_id (init_backend key block (Some []) z f w) = config_job_id w"
  "jid \<noteq> [] \<Longrightarrow> job_id (init_backend key block (Some jid) z f w) = Some jid"
  by (simp_all add: init_backend_def py_or_def)

text \<open>
  A first non-blocking call, with no job id, submits and persists the id the service
  answers with.
\<close>

lemma first_submission_persists_id:
  "non_blocking_request (demo_backend\<lparr>job_id := None\<rparr>) demo_remote demo_graph
      (demo_world\<lparr>config_job_id := None, saved_job_id := None\<rparr>) =
     (\<lparr>config_job_id = Some ''job-42'', saved_job_id = Some ''job-42'',
       events = [Serialized demo_graph,
                 Posted ''ab'' [(''model_key'', ''model''), (''format'', ''json''), (''zlib'', ''False''),
                                (''Content-Type'', ''application/octet-stream'')],
                 Logged (Queued ''job-42'')]\<rparr>,
      Inr None)"
  by (simp add: non_blocking_request_def serialize_def submit_request_def handle_response_def
        Let_def demo_backend_def demo_remote_def demo_world_def demo_graph_def emit_def
        config_save_def)

subsection \<open>Polling or submitting\<close>





end
